theory Spec2Isabelle
  imports Complex_Main "HOL-Library.AList"
begin


section \<open>Go values, maps and the libraries the proxy calls\<close>

text \<open>
  The proxy is written in Go. Its JSON bodies are \<^verbatim>\<open>map[string]any\<close>; the dynamic
  values stored in them are the ones \<^verbatim>\<open>encoding/json\<close> and the YAML loader produce.
  A \<^verbatim>\<open>float64\<close> is modelled by the real number it denotes (the code only compares
  it with zero) and a Go \<^verbatim>\<open>int\<close> by an integer (the code does no arithmetic on it).
\<close>

type_synonym error = string

datatype go_panic = NilMapAssignment | IndexOutOfRange | NilPointerDereference

datatype val =
    VNil
  | VBool bool
  | VInt int
  | VFloat64 real
  | VString string
  | VSlice "val list"
  | VMap "(string \<times> val) list"

text \<open>
  A Go map is an association list with distinct keys; the order of the list stands for
  the order in which one \<^verbatim>\<open>range\<close> visits the entries, which Go leaves open.
  A map variable is a reference that may be \<^verbatim>\<open>nil\<close>: reading a nil map behaves as
  reading the empty map, deleting from it does nothing, assigning to it panics.
\<close>

type_synonym gomap = "(string \<times> val) list"
type_synonym strmap = "(string \<times> string) list"

definition go_entries :: "gomap option \<Rightarrow> gomap" where
  "go_entries m = (case m of None \<Rightarrow> [] | Some es \<Rightarrow> es)"

definition go_index :: "gomap option \<Rightarrow> string \<Rightarrow> val option" where
  "go_index m k = map_of (go_entries m) k"

definition go_assign :: "gomap option \<Rightarrow> string \<Rightarrow> val \<Rightarrow> go_panic + gomap option" where
  "go_assign m k v =
     (case m of None \<Rightarrow> Inl NilMapAssignment
      | Some es \<Rightarrow> Inr (Some (AList.update k v es)))"

definition go_delete :: "gomap option \<Rightarrow> string \<Rightarrow> gomap option" where
  "go_delete m k = map_option (AList.delete k) m"

definition wf_map :: "('k \<times> 'v) list \<Rightarrow> bool" where
  "wf_map m = distinct (map fst m)"

text \<open>
  The logging sink is abstract: an event is its level and its message; the structured
  fields of an event are not modelled, and arguments of the source that only flow into
  those fields (phase, rule index, method, path) are left out of the definitions.
\<close>

datatype log_event = LogDebug string | LogInfo string | LogError string

text \<open>
  The standard-library functions the proxy calls are parameters of the model:
  \<^verbatim>\<open>regexp.Compile\<close> and \<^verbatim>\<open>(*Regexp).MatchString\<close>, \<^verbatim>\<open>strings.ToLower\<close>,
  \<^verbatim>\<open>fmt.Sprintf("%v", v)\<close>, \<^verbatim>\<open>(*template.Template).Execute\<close> (the text written to
  the buffer, or the error), \<^verbatim>\<open>json.Unmarshal\<close> into a \<^verbatim>\<open>map[string]any\<close> and
  \<^verbatim>\<open>json.Marshal\<close> of one, and the \<^verbatim>\<open>bufio.Scanner\<close> that splits a body into lines.
  \<^verbatim>\<open>Unmarshal\<close> yields an error, or the map; for the JSON literal \<^verbatim>\<open>null\<close>
  encoding/json reports no error and leaves the map nil, which is the result
  \<open>Inr None\<close>. A body is the bytes a reader yields and the error, if any, that ends
  the reading; \<^verbatim>\<open>Scan\<close> yields its lines and the scanner's final error.
\<close>

record ('re, 'tmpl) lib =
  Compile :: "string \<Rightarrow> error + 're"
  MatchString :: "'re \<Rightarrow> string \<Rightarrow> bool"
  ToLower :: "string \<Rightarrow> string"
  Sprint_v :: "val \<Rightarrow> string"
  Execute :: "'tmpl \<Rightarrow> gomap option \<Rightarrow> error + string"
  Unmarshal :: "string \<Rightarrow> error + gomap option"
  Marshal :: "gomap option \<Rightarrow> error + string"
  Scan :: "string \<times> error option \<Rightarrow> string list \<times> error option"

section \<open>config: pattern fields\<close>

record 're PatternField =
  Patterns :: "string list"
  Compiled :: "'re list"

text \<open>
  \<^verbatim>\<open>PatternField.Validate\<close> has a pointer receiver: it resets \<^verbatim>\<open>Compiled\<close> and appends
  one compiled expression per pattern, each compiled from \<^verbatim>\<open>"(?i)" + pattern\<close>; at the
  first pattern that does not compile it returns the error and leaves the expressions
  compiled so far.
\<close>

fun Validate_loop ::
  "('re, 'tmpl) lib \<Rightarrow> string list \<Rightarrow> 're list \<Rightarrow> error option \<times> 're list" where
  "Validate_loop L [] compiled = (None, compiled)"
| "Validate_loop L (pattern # rest) compiled =
     (case Compile L (''(?i)'' @ pattern) of
        Inl err \<Rightarrow>
          (Some (''invalid regex pattern '' @ [CHR 0x27] @ pattern @ [CHR 0x27] @ '': '' @ err),
           compiled)
      | Inr re \<Rightarrow> Validate_loop L rest (compiled @ [re]))"

definition Validate ::
  "('re, 'tmpl) lib \<Rightarrow> 're PatternField \<Rightarrow> error option \<times> 're PatternField" where
  "Validate L p =
     (case Validate_loop L (Patterns p) [] of
        (err, compiled) \<Rightarrow> (err, p\<lparr>Compiled := compiled\<rparr>))"

fun Matches_loop :: "('re, 'tmpl) lib \<Rightarrow> 're list \<Rightarrow> string \<Rightarrow> bool" where
  "Matches_loop L [] input = False"
| "Matches_loop L (re # rest) input =
     (if MatchString L re input then True else Matches_loop L rest input)"

definition Matches :: "('re, 'tmpl) lib \<Rightarrow> 're PatternField \<Rightarrow> string \<Rightarrow> bool" where
  "Matches L p input = Matches_loop L (Compiled p) input"

section \<open>config: the predicate engine\<close>

datatype 're BoolExpr = BoolExpr
  (Body: "(string \<times> 're PatternField) list")
  (Query: "(string \<times> 're PatternField) list")
  (Headers: "(string \<times> 're PatternField) list")
  (And: "'re BoolExpr list")
  (Or: "'re BoolExpr list")
  (Not': "'re BoolExpr option")

definition toStringMap :: "('re, 'tmpl) lib \<Rightarrow> gomap \<Rightarrow> strmap" where
  "toStringMap L data =
     fold (\<lambda>(key, value) result. AList.update key (Sprint_v L value) result) data []"

definition normalizeHeaders :: "('re, 'tmpl) lib \<Rightarrow> strmap \<Rightarrow> strmap" where
  "normalizeHeaders L headers =
     fold (\<lambda>(key, value) normalizedHeaders.
             AList.update (ToLower L key) value normalizedHeaders) headers []"

text \<open>The three loops of \<^verbatim>\<open>evaluateLeafMatchers\<close>; the first two have the same body.\<close>

fun checkMatchers ::
  "('re, 'tmpl) lib \<Rightarrow> (string \<times> 're PatternField) list \<Rightarrow> strmap \<Rightarrow> bool" where
  "checkMatchers L [] actual = True"
| "checkMatchers L ((key, pattern) # rest) actual =
     (case map_of actual key of
        None \<Rightarrow> False
      | Some actualValue \<Rightarrow>
          if \<not> Matches L pattern actualValue then False
          else checkMatchers L rest actual)"

fun checkHeaderMatchers ::
  "('re, 'tmpl) lib \<Rightarrow> (string \<times> 're PatternField) list \<Rightarrow> strmap \<Rightarrow> bool" where
  "checkHeaderMatchers L [] normalizedHeaders = True"
| "checkHeaderMatchers L ((key, pattern) # rest) normalizedHeaders =
     (case map_of normalizedHeaders (ToLower L key) of
        None \<Rightarrow> False
      | Some actualValue \<Rightarrow>
          if \<not> Matches L pattern actualValue then False
          else checkHeaderMatchers L rest normalizedHeaders)"

definition evaluateLeafMatchers ::
  "('re, 'tmpl) lib \<Rightarrow> 're BoolExpr \<Rightarrow> strmap \<Rightarrow> strmap \<Rightarrow> strmap \<Rightarrow> bool" where
  "evaluateLeafMatchers L b bodyStrings normalizedHeaders query =
     (if \<not> checkMatchers L (Body b) bodyStrings then False
      else if \<not> checkMatchers L (Query b) query then False
      else if \<not> checkHeaderMatchers L (Headers b) normalizedHeaders then False
      else True)"

text \<open>
  \<^verbatim>\<open>Evaluate\<close> on a node that is not nil, with its loops over \<^verbatim>\<open>And\<close> and \<^verbatim>\<open>Or\<close>.
\<close>

function (sequential) Evaluate_node ::
    "('re, 'tmpl) lib \<Rightarrow> 're BoolExpr \<Rightarrow> gomap \<Rightarrow> strmap \<Rightarrow> strmap \<Rightarrow> bool"
  and Evaluate_And ::
    "('re, 'tmpl) lib \<Rightarrow> 're BoolExpr list \<Rightarrow> gomap \<Rightarrow> strmap \<Rightarrow> strmap \<Rightarrow> bool"
  and Evaluate_Or ::
    "('re, 'tmpl) lib \<Rightarrow> 're BoolExpr list \<Rightarrow> gomap \<Rightarrow> strmap \<Rightarrow> strmap \<Rightarrow> bool"
where
  "Evaluate_node L (BoolExpr bd qs hs ands ors nt) body headers query =
     (if \<not> evaluateLeafMatchers L (BoolExpr bd qs hs ands ors nt)
             (toStringMap L body) (normalizeHeaders L headers) query
      then False
      else if ands \<noteq> [] \<and> \<not> Evaluate_And L ands body headers query then False
      else if ors \<noteq> [] \<and> \<not> Evaluate_Or L ors body headers query then False
      else (case nt of
              None \<Rightarrow> True
            | Some e \<Rightarrow> if Evaluate_node L e body headers query then False else True))"
| "Evaluate_And L [] body headers query = True"
| "Evaluate_And L (expr # rest) body headers query =
     (if \<not> Evaluate_node L expr body headers query then False
      else Evaluate_And L rest body headers query)"
| "Evaluate_Or L [] body headers query = False"
| "Evaluate_Or L (expr # rest) body headers query =
     (if Evaluate_node L expr body headers query then True
      else Evaluate_Or L rest body headers query)"
  by pat_completeness auto
termination
  by (relation "measure (case_sum (\<lambda>(L, b, r). size b)
        (case_sum (\<lambda>(L, bs, r). size_list size bs) (\<lambda>(L, bs, r). size_list size bs)))")
     auto

text \<open>\<^verbatim>\<open>(b *BoolExpr) Evaluate\<close>: a nil expression always matches.\<close>

definition Evaluate ::
  "('re, 'tmpl) lib \<Rightarrow> 're BoolExpr option \<Rightarrow> gomap option \<Rightarrow> strmap \<Rightarrow> strmap \<Rightarrow> bool" where
  "Evaluate L b body headers query =
     (case b of
        None \<Rightarrow> True
      | Some e \<Rightarrow> Evaluate_node L e (go_entries body) headers query)"


section \<open>Functions of the strings and bufio packages\<close>

text \<open>
  \<^verbatim>\<open>strings.HasPrefix\<close>, \<^verbatim>\<open>strings.TrimPrefix\<close> and \<^verbatim>\<open>strings.Contains\<close> compare bytes;
  a Go string is the list of its bytes.
\<close>

fun HasPrefix :: "string \<Rightarrow> string \<Rightarrow> bool" where
  "HasPrefix s [] = True"
| "HasPrefix [] (c # prefix) = False"
| "HasPrefix (x # s) (c # prefix) = (x = c \<and> HasPrefix s prefix)"

definition TrimPrefix :: "string \<Rightarrow> string \<Rightarrow> string" where
  "TrimPrefix s prefix = (if HasPrefix s prefix then drop (length prefix) s else s)"

fun Contains :: "string \<Rightarrow> string \<Rightarrow> bool" where
  "Contains [] substr = (substr = [])"
| "Contains (x # s) substr = (HasPrefix (x # s) substr \<or> Contains s substr)"

text \<open>
  \<^verbatim>\<open>bufio.ScanLines\<close>, the split function of a scanner made by \<^verbatim>\<open>bufio.NewScanner\<close>:
  a line ends at a line feed, one carriage return before the line feed is dropped with
  it (\<^verbatim>\<open>dropCR\<close>), and what is left at the end of the input is a last line if it is
  not empty. \<open>scan_lines\<close> carries the bytes of the line read so far.
\<close>

definition dropCR :: "string \<Rightarrow> string" where
  "dropCR data = (if data \<noteq> [] \<and> last data = CHR 0x0D then butlast data else data)"

fun scan_lines :: "string \<Rightarrow> string \<Rightarrow> string list" where
  "scan_lines [] cur = (if cur = [] then [] else [dropCR cur])"
| "scan_lines (c # cs) cur =
     (if c = CHR 0x0A then dropCR cur # scan_lines cs [] else scan_lines cs (cur @ [c]))"

definition ScanLines :: "string \<Rightarrow> string list" where
  "ScanLines data = scan_lines data []"

section \<open>config: the action pipeline\<close>

record 're Action =
  When :: "'re BoolExpr option"
  WhenAny :: "'re BoolExpr list"
  Template :: string
  Merge :: gomap
  Default :: gomap
  Delete :: "string list"
  Stop :: bool

record 're ActionExec =
  When :: "'re BoolExpr option"
  Template :: string
  Merge :: gomap
  Default :: gomap
  Delete :: "string list"
  Stop :: bool

record ('re, 'tmpl) CompiledRoute =
  OnRequest :: "'re ActionExec list"
  OnResponse :: "'re ActionExec list"
  OnRequestTemplates :: "'tmpl option list"
  OnResponseTemplates :: "'tmpl option list"

text \<open>
  \<^verbatim>\<open>for k, v := range src { dst[k] = v }\<close> on a destination map that is not nil; this is
  also \<^verbatim>\<open>maps.Copy(dst, src)\<close>.
\<close>

definition copy_into :: "gomap \<Rightarrow> gomap \<Rightarrow> gomap" where
  "copy_into dst src = fold (\<lambda>(k, v) m. AList.update k v m) src dst"

fun applyMerge :: "gomap option \<Rightarrow> gomap \<Rightarrow> gomap \<Rightarrow> go_panic + (gomap option \<times> gomap)" where
  "applyMerge data [] appliedValues = Inr (data, appliedValues)"
| "applyMerge data ((key, value) # rest) appliedValues =
     (case go_assign data key value of
        Inl p \<Rightarrow> Inl p
      | Inr data' \<Rightarrow> applyMerge data' rest (AList.update key value appliedValues))"

fun applyDefault :: "gomap option \<Rightarrow> gomap \<Rightarrow> gomap \<Rightarrow> go_panic + (gomap option \<times> gomap)" where
  "applyDefault data [] appliedValues = Inr (data, appliedValues)"
| "applyDefault data ((key, value) # rest) appliedValues =
     (if go_index data key = None then
        (case go_assign data key value of
           Inl p \<Rightarrow> Inl p
         | Inr data' \<Rightarrow> applyDefault data' rest (AList.update key value appliedValues))
      else applyDefault data rest appliedValues)"

fun applyDelete :: "gomap option \<Rightarrow> string list \<Rightarrow> gomap \<Rightarrow> gomap option \<times> gomap" where
  "applyDelete data [] appliedValues = (data, appliedValues)"
| "applyDelete data (key # rest) appliedValues =
     (if go_index data key \<noteq> None then
        applyDelete (go_delete data key) rest
          (AList.update key (VString ''<deleted>'') appliedValues)
      else applyDelete data rest appliedValues)"

text \<open>
  \<^verbatim>\<open>ExecuteTemplate\<close>: render, parse the text as JSON, then empty the output map and
  copy the parsed entries into it. The result is the returned flag, the output map and
  the events logged.
\<close>

fun assign_entries :: "gomap option \<Rightarrow> gomap \<Rightarrow> go_panic + gomap option" where
  "assign_entries output [] = Inr output"
| "assign_entries output ((k, v) # rest) =
     (case go_assign output k v of
        Inl p \<Rightarrow> Inl p
      | Inr output' \<Rightarrow> assign_entries output' rest)"

definition delete_all :: "gomap option \<Rightarrow> gomap option" where
  "delete_all output = fold (\<lambda>k m. go_delete m k) (map fst (go_entries output)) output"

definition ExecuteTemplate ::
  "('re, 'tmpl) lib \<Rightarrow> 'tmpl \<Rightarrow> gomap option \<Rightarrow> gomap option
     \<Rightarrow> go_panic + (bool \<times> gomap option \<times> log_event list)" where
  "ExecuteTemplate L tmpl input output =
     (case Execute L tmpl input of
        Inl err \<Rightarrow> Inr (False, output, [LogError ''Template execution error''])
      | Inr buf \<Rightarrow>
          (case Unmarshal L buf of
             Inl err \<Rightarrow> Inr (False, output, [LogError ''Template output is not valid JSON''])
           | Inr result \<Rightarrow>
               (case assign_entries (delete_all output) (go_entries result) of
                  Inl p \<Rightarrow> Inl p
                | Inr output' \<Rightarrow> Inr (True, output', []))))"

text \<open>
  The state of \<^verbatim>\<open>processActions\<close> across its loop, and the steps of one iteration on
  an action that is not skipped: the template, then the defaults, the merge and the
  deletions, each followed by the copy of \<^verbatim>\<open>opChanges\<close> into \<^verbatim>\<open>appliedValues\<close>.
  \<^verbatim>\<open>opChanges\<close> is local to the iteration. The copy \<^verbatim>\<open>beforeValues\<close> and the slices
  of added, updated and deleted keys only feed the fields of the final debug event and
  are left out.
\<close>

record pa_state =
  pa_data :: "gomap option"
  pa_appliedValues :: gomap
  pa_anyApplied :: bool
  pa_opExecuted :: nat
  pa_logs :: "log_event list"

definition templateStep ::
  "('re, 'tmpl) lib \<Rightarrow> 'tmpl option list \<Rightarrow> nat \<Rightarrow> 're ActionExec \<Rightarrow> pa_state \<Rightarrow> gomap
     \<Rightarrow> go_panic + (pa_state \<times> gomap)" where
  "templateStep L templates i op st opChanges =
     (if Template op \<noteq> [] then
        (if i < length templates then
           (case templates ! i of
              None \<Rightarrow> Inr (st, opChanges)
            | Some tmpl \<Rightarrow>
                (case ExecuteTemplate L tmpl (pa_data st) (pa_data st) of
                   Inl p \<Rightarrow> Inl p
                 | Inr (ok, data', lg) \<Rightarrow>
                     if ok then
                       Inr (st\<lparr>pa_data := data',
                               pa_appliedValues := copy_into (pa_appliedValues st) (go_entries data'),
                               pa_anyApplied := True,
                               pa_logs := pa_logs st @ lg\<rparr>,
                            copy_into opChanges (go_entries data'))
                     else Inr (st\<lparr>pa_data := data', pa_logs := pa_logs st @ lg\<rparr>, opChanges)))
         else Inl IndexOutOfRange)
      else Inr (st, opChanges))"

definition defaultStep ::
  "'re ActionExec \<Rightarrow> pa_state \<Rightarrow> gomap \<Rightarrow> go_panic + (pa_state \<times> gomap)" where
  "defaultStep op st opChanges =
     (if Default op \<noteq> [] then
        (case applyDefault (pa_data st) (Default op) opChanges of
           Inl p \<Rightarrow> Inl p
         | Inr (data', opChanges') \<Rightarrow>
             Inr (st\<lparr>pa_data := data',
                     pa_appliedValues := copy_into (pa_appliedValues st) opChanges'\<rparr>, opChanges'))
      else Inr (st, opChanges))"

definition mergeStep ::
  "'re ActionExec \<Rightarrow> pa_state \<Rightarrow> gomap \<Rightarrow> go_panic + (pa_state \<times> gomap)" where
  "mergeStep op st opChanges =
     (if Merge op \<noteq> [] then
        (case applyMerge (pa_data st) (Merge op) opChanges of
           Inl p \<Rightarrow> Inl p
         | Inr (data', opChanges') \<Rightarrow>
             Inr (st\<lparr>pa_data := data',
                     pa_appliedValues := copy_into (pa_appliedValues st) opChanges'\<rparr>, opChanges'))
      else Inr (st, opChanges))"

definition deleteStep :: "'re ActionExec \<Rightarrow> pa_state \<Rightarrow> gomap \<Rightarrow> pa_state \<times> gomap" where
  "deleteStep op st opChanges =
     (if Delete op \<noteq> [] then
        (case applyDelete (pa_data st) (Delete op) opChanges of
           (data', opChanges') \<Rightarrow>
             (st\<lparr>pa_data := data',
                 pa_appliedValues := copy_into (pa_appliedValues st) opChanges'\<rparr>, opChanges'))
      else (st, opChanges))"

definition runAction ::
  "('re, 'tmpl) lib \<Rightarrow> 'tmpl option list \<Rightarrow> nat \<Rightarrow> 're ActionExec \<Rightarrow> pa_state
     \<Rightarrow> go_panic + pa_state" where
  "runAction L templates i op st =
     (case templateStep L templates i op st [] of
        Inl p \<Rightarrow> Inl p
      | Inr (st1, ch1) \<Rightarrow>
     (case defaultStep op st1 ch1 of
        Inl p \<Rightarrow> Inl p
      | Inr (st2, ch2) \<Rightarrow>
     (case mergeStep op st2 ch2 of
        Inl p \<Rightarrow> Inl p
      | Inr (st3, ch3) \<Rightarrow>
     (case deleteStep op st3 ch3 of
        (st4, ch4) \<Rightarrow>
          Inr (st4\<lparr>pa_opExecuted := pa_opExecuted st4 + 1,
                   pa_anyApplied := (if ch4 \<noteq> [] then True else pa_anyApplied st4)\<rparr>)))))"

definition skipped ::
  "('re, 'tmpl) lib \<Rightarrow> strmap \<Rightarrow> strmap \<Rightarrow> 're ActionExec \<Rightarrow> pa_state \<Rightarrow> bool" where
  "skipped L headers query op st =
     (When op \<noteq> None \<and> \<not> Evaluate L (When op) (pa_data st) headers query)"

text \<open>
  The loop of \<^verbatim>\<open>processActions\<close> from index \<open>i\<close> on. The flag of the result tells
  whether the loop was left by \<^verbatim>\<open>break\<close>.
\<close>

fun processActions_loop ::
  "('re, 'tmpl) lib \<Rightarrow> strmap \<Rightarrow> strmap \<Rightarrow> 'tmpl option list \<Rightarrow> nat \<Rightarrow> 're ActionExec list
     \<Rightarrow> pa_state \<Rightarrow> go_panic + (bool \<times> pa_state)" where
  "processActions_loop L headers query templates i [] st = Inr (False, st)"
| "processActions_loop L headers query templates i (op # operations) st =
     (if skipped L headers query op st
      then processActions_loop L headers query templates (i + 1) operations st
      else (case runAction L templates i op st of
              Inl p \<Rightarrow> Inl p
            | Inr st' \<Rightarrow>
                if Stop op
                then Inr (True, st'\<lparr>pa_logs := pa_logs st' @ [LogDebug ''Action stop flag set'']\<rparr>)
                else processActions_loop L headers query templates (i + 1) operations st'))"

text \<open>
  \<^verbatim>\<open>processActions\<close> returns the changed flag and the applied values; the map it was
  given is mutated in place, so the model returns it as well, with the events logged.
\<close>

definition processActions ::
  "('re, 'tmpl) lib \<Rightarrow> gomap option \<Rightarrow> strmap \<Rightarrow> strmap \<Rightarrow> 're ActionExec list
     \<Rightarrow> 'tmpl option list \<Rightarrow> go_panic + (bool \<times> gomap \<times> gomap option \<times> log_event list)" where
  "processActions L data0 headers query operations templates =
     (case processActions_loop L headers query templates 0 operations
             \<lparr>pa_data = data0, pa_appliedValues = [], pa_anyApplied = False,
              pa_opExecuted = 0, pa_logs = []\<rparr> of
        Inl p \<Rightarrow> Inl p
      | Inr (stopped, st) \<Rightarrow>
          Inr (pa_anyApplied st, pa_appliedValues st, pa_data st,
               pa_logs st @ (if pa_anyApplied st
                          then [LogDebug ''Route applied request changes''] else [])))"

definition ProcessRequest ::
  "('re, 'tmpl) lib \<Rightarrow> gomap option \<Rightarrow> strmap \<Rightarrow> strmap \<Rightarrow> ('re, 'tmpl) CompiledRoute option
     \<Rightarrow> go_panic + (bool \<times> gomap \<times> gomap option \<times> log_event list)" where
  "ProcessRequest L data0 headers query route =
     (case route of
        None \<Rightarrow> Inl NilPointerDereference
      | Some r \<Rightarrow>
          processActions L data0 headers query
            (CompiledRoute.OnRequest r) (OnRequestTemplates r))"

definition ProcessResponse ::
  "('re, 'tmpl) lib \<Rightarrow> gomap option \<Rightarrow> strmap \<Rightarrow> strmap \<Rightarrow> ('re, 'tmpl) CompiledRoute option
     \<Rightarrow> go_panic + (bool \<times> gomap \<times> gomap option \<times> log_event list)" where
  "ProcessResponse L data0 headers query route =
     (case route of
        None \<Rightarrow> Inl NilPointerDereference
      | Some r \<Rightarrow>
          processActions L data0 headers query
            (CompiledRoute.OnResponse r) (OnResponseTemplates r))"


section \<open>config: template helpers\<close>

text \<open>The entry \<^verbatim>\<open>"default"\<close> of \<^verbatim>\<open>TemplateFuncs\<close>.\<close>

definition TemplateFuncs_default :: "val \<Rightarrow> val \<Rightarrow> val" where
  "TemplateFuncs_default def val =
     (case val of
        VNil \<Rightarrow> def
      | VString v \<Rightarrow> if v = [] then def else val
      | VFloat64 v \<Rightarrow> if v = 0 then def else val
      | VBool v \<Rightarrow> if \<not> v then def else val
      | _ \<Rightarrow> val)"


section \<open>proxy: route matching\<close>

record ('re, 'tmpl) Route =
  Methods :: "'re PatternField"
  Paths :: "'re PatternField"
  TargetPath :: string
  OnRequest :: "'re Action list"
  OnResponse :: "'re Action list"
  Compiled :: "('re, 'tmpl) CompiledRoute option"

text \<open>
  The value stored in the request context under \<^verbatim>\<open>routeContextKey\<close>: nothing, a pointer
  to a \<^verbatim>\<open>responseRouteContext\<close>, or a pointer to a single route. Pointers may be nil.
\<close>

record ('re, 'tmpl) responseRouteContext =
  rules :: "('re, 'tmpl) Route option list"
  indices :: "int list"

datatype ('re, 'tmpl) context_value =
    NoValue
  | RouteContext "('re, 'tmpl) responseRouteContext option"
  | SingleRoute "('re, 'tmpl) Route option"

text \<open>The fields of \<^verbatim>\<open>http.Request\<close> and \<^verbatim>\<open>http.Response\<close> that the proxy uses.\<close>

record ('re, 'tmpl) request =
  req_Method :: string
  req_URL_Path :: string
  req_URL_Query :: "(string \<times> string list) list"
  req_Header :: "(string \<times> string list) list"
  req_Body :: "(string \<times> error option) option"
  req_ContentLength :: int
  req_Context :: "('re, 'tmpl) context_value"

record ('re, 'tmpl) response =
  resp_Request :: "('re, 'tmpl) request"
  resp_Header :: "(string \<times> string list) list"
  resp_Body :: "string \<times> error option"
  resp_ContentLength :: int

text \<open>
  \<^verbatim>\<open>MatchRoutes\<close>: the loop over the routes from index \<open>i\<close> on, appending to the two
  result slices. The pointers it returns are never nil.
\<close>

fun MatchRoutes_loop ::
  "('re, 'tmpl) lib \<Rightarrow> ('re, 'tmpl) request \<Rightarrow> nat \<Rightarrow> ('re, 'tmpl) Route list
     \<Rightarrow> ('re, 'tmpl) Route option list \<times> int list
     \<Rightarrow> ('re, 'tmpl) Route option list \<times> int list" where
  "MatchRoutes_loop L req i [] (matchedRoutes, matchedIndices) = (matchedRoutes, matchedIndices)"
| "MatchRoutes_loop L req i (route # rest) (matchedRoutes, matchedIndices) =
     (let methodMatch = Matches L (Methods route) (req_Method req);
          pathMatch = Matches L (Paths route) (req_URL_Path req)
      in if methodMatch \<and> pathMatch
         then MatchRoutes_loop L req (i + 1) rest
                (matchedRoutes @ [Some route], matchedIndices @ [int i])
         else MatchRoutes_loop L req (i + 1) rest (matchedRoutes, matchedIndices))"

definition MatchRoutes ::
  "('re, 'tmpl) lib \<Rightarrow> ('re, 'tmpl) request \<Rightarrow> ('re, 'tmpl) Route list
     \<Rightarrow> ('re, 'tmpl) Route option list \<times> int list" where
  "MatchRoutes L req routes = MatchRoutes_loop L req 0 routes ([], [])"

definition FindMatchingRoutes ::
  "('re, 'tmpl) lib \<Rightarrow> ('re, 'tmpl) request \<Rightarrow> ('re, 'tmpl) Route list
     \<Rightarrow> ('re, 'tmpl) Route option list" where
  "FindMatchingRoutes L req routes = fst (MatchRoutes L req routes)"

section \<open>proxy: the request processor\<close>

text \<open>
  Of the events the proxy package logs, those of level error and the debug event for a
  request body that is not JSON are modelled; its other info and debug events describe
  the traffic. \<open>debug\<close> is the result of \<^verbatim>\<open>logger.IsDebug()\<close>.
\<close>

definition firstValues :: "(string \<times> string list) list \<Rightarrow> strmap" where
  "firstValues hs =
     fold (\<lambda>(key, values) m. if values \<noteq> [] then AList.update key (hd values) m else m) hs []"

definition extractQueryParams :: "(string \<times> string list) list \<Rightarrow> strmap" where
  "extractQueryParams q = firstValues q"

record ('re, 'tmpl) mr_state =
  mr_path :: string
  mr_data :: "gomap option"
  mr_anyModified :: bool
  mr_allAppliedValues :: gomap
  mr_matched :: "('re, 'tmpl) responseRouteContext"
  mr_logs :: "log_event list"

fun ModifyRequest_loop ::
  "('re, 'tmpl) lib \<Rightarrow> bool \<Rightarrow> strmap \<Rightarrow> strmap
     \<Rightarrow> (('re, 'tmpl) Route option \<times> int) list \<Rightarrow> ('re, 'tmpl) mr_state
     \<Rightarrow> go_panic + ('re, 'tmpl) mr_state" where
  "ModifyRequest_loop L hasJSONBody headers query [] st = Inr st"
| "ModifyRequest_loop L hasJSONBody headers query ((None, routeIndex) # rest) st =
     Inl NilPointerDereference"
| "ModifyRequest_loop L hasJSONBody headers query ((Some rule, routeIndex) # rest) st =
     (let st1 = st\<lparr>mr_matched :=
                     \<lparr>rules = rules (mr_matched st) @ [Some rule],
                      indices = indices (mr_matched st) @ [routeIndex]\<rparr>\<rparr>;
          st2 = (if TargetPath rule \<noteq> [] \<and> TargetPath rule \<noteq> mr_path st1
                 then st1\<lparr>mr_path := TargetPath rule\<rparr> else st1)
      in if \<not> hasJSONBody \<or> OnRequest rule = []
         then ModifyRequest_loop L hasJSONBody headers query rest st2
         else (case ProcessRequest L (mr_data st2) headers query (Compiled rule) of
                 Inl p \<Rightarrow> Inl p
               | Inr (modified, appliedValues, data', lg) \<Rightarrow>
                   ModifyRequest_loop L hasJSONBody headers query rest
                     (if modified
                      then st2\<lparr>mr_data := data', mr_anyModified := True,
                               mr_allAppliedValues :=
                                 copy_into (mr_allAppliedValues st2) appliedValues,
                               mr_logs := mr_logs st2 @ lg\<rparr>
                      else st2\<lparr>mr_data := data', mr_logs := mr_logs st2 @ lg\<rparr>)))"

definition ModifyRequest ::
  "('re, 'tmpl) lib \<Rightarrow> bool \<Rightarrow> ('re, 'tmpl) request \<Rightarrow> ('re, 'tmpl) Route list
     \<Rightarrow> go_panic + (('re, 'tmpl) request \<times> log_event list)" where
  "ModifyRequest L debug req routes =
     (case (case req_Body req of
              None \<Rightarrow> Inr []
            | Some (bytes, err) \<Rightarrow>
                (case err of
                   Some e \<Rightarrow> Inl e
                 | None \<Rightarrow> Inr (take (10 * 1024 * 1024) bytes))) of
        Inl e \<Rightarrow> Inr (req, [LogError ''Failed to read request body''])
      | Inr body \<Rightarrow>
          (let parsed = (if body \<noteq> [] then Unmarshal L body else Inl []);
               hasJSONBody = (body \<noteq> [] \<and> \<not> isl parsed);
               data0 = (case parsed of Inl e \<Rightarrow> None | Inr d \<Rightarrow> d);
               lg0 = (if body \<noteq> [] \<and> isl parsed \<and> debug
                      then [LogDebug ''Request body is not JSON, passing through unchanged'']
                      else []);
               req0 = (if body \<noteq> [] \<and> isl parsed
                       then req\<lparr>req_Body := Some (body, None)\<rparr> else req);
               headers = firstValues (req_Header req0);
               query = extractQueryParams (req_URL_Query req0);
               matched = MatchRoutes L req0 routes
           in case ModifyRequest_loop L hasJSONBody headers query
                     (zip (fst matched) (snd matched))
                     \<lparr>mr_path = req_URL_Path req0, mr_data = data0, mr_anyModified = False,
                      mr_allAppliedValues = [], mr_matched = \<lparr>rules = [], indices = []\<rparr>,
                      mr_logs = lg0\<rparr> of
                Inl p \<Rightarrow> Inl p
              | Inr st \<Rightarrow>
                  (let req1 = req0\<lparr>req_URL_Path := mr_path st\<rparr>;
                       req2 = (if rules (mr_matched st) \<noteq> []
                               then req1\<lparr>req_Context := RouteContext (Some (mr_matched st))\<rparr>
                               else req1)
                   in if hasJSONBody then
                        (case Marshal L (mr_data st) of
                           Inl e \<Rightarrow>
                             Inr (req2\<lparr>req_Body := Some (body, None)\<rparr>,
                                  mr_logs st @ [LogError ''Failed to marshal modified request JSON''])
                         | Inr modifiedBody \<Rightarrow>
                             Inr (req2\<lparr>req_Body := Some (modifiedBody, None),
                                       req_ContentLength := int (length modifiedBody)\<rparr>,
                                  mr_logs st))
                      else if body \<noteq> [] then Inr (req2\<lparr>req_Body := Some (body, None)\<rparr>, mr_logs st)
                      else Inr (req2, mr_logs st))))"


section \<open>proxy: the streaming processor\<close>

text \<open>
  The worker writes to the pipe whose read end is the new response body. A write fails
  once the read end is closed: \<open>writes_left = Some n\<close> says that the reader closes
  after \<open>n\<close> more writes, \<open>None\<close> that it stays open. A write is taken as a whole.
\<close>

record pipe =
  written :: string
  writes_left :: "nat option"

definition pipe_Write :: "string \<Rightarrow> pipe \<Rightarrow> bool \<times> pipe" where
  "pipe_Write bytes p =
     (case writes_left p of
        None \<Rightarrow> (True, p\<lparr>written := written p @ bytes\<rparr>)
      | Some n \<Rightarrow>
          if n = 0 then (False, p)
          else (True, p\<lparr>written := written p @ bytes, writes_left := Some (n - 1)\<rparr>))"

definition newline :: string where
  "newline = [CHR 0x0A]"

text \<open>The loop over the matched routes that handles one parsed line.\<close>

fun stream_routes ::
  "('re, 'tmpl) lib \<Rightarrow> strmap \<Rightarrow> strmap \<Rightarrow> ('re, 'tmpl) Route option list
     \<Rightarrow> gomap option \<times> bool \<times> gomap \<times> log_event list
     \<Rightarrow> go_panic + (gomap option \<times> bool \<times> gomap \<times> log_event list)" where
  "stream_routes L headers query [] acc = Inr acc"
| "stream_routes L headers query (rule # rest) (data, modified, appliedValues, lg) =
     (case rule of
        None \<Rightarrow> stream_routes L headers query rest (data, modified, appliedValues, lg)
      | Some r \<Rightarrow>
          if OnResponse r = [] \<or> Compiled r = None
          then stream_routes L headers query rest (data, modified, appliedValues, lg)
          else (case ProcessResponse L data headers query (Compiled r) of
                  Inl p \<Rightarrow> Inl p
                | Inr (changed, vals, data', lg') \<Rightarrow>
                    stream_routes L headers query rest
                      (data', if changed then True else modified,
                       if changed then copy_into appliedValues vals else appliedValues,
                       lg @ lg')))"

text \<open>
  One iteration of the scanner loop. The flag of the result tells whether the worker
  goes on to the next line (\<^verbatim>\<open>continue\<close>, or the end of the loop body) or returns.
\<close>

definition streamLine ::
  "('re, 'tmpl) lib \<Rightarrow> ('re, 'tmpl) Route option list \<Rightarrow> strmap \<Rightarrow> strmap \<Rightarrow> string \<Rightarrow> pipe
     \<Rightarrow> go_panic + (bool \<times> pipe \<times> log_event list)" where
  "streamLine L routes headers query line p =
     (if line = [] then
        (case pipe_Write newline p of
           (ok, p') \<Rightarrow>
             if ok then Inr (True, p', [])
             else Inr (False, p', [LogError ''Failed to write empty streaming line'']))
      else
        (let isSSE = HasPrefix line ''data: '';
             jsonStr = TrimPrefix line ''data: ''
         in if isSSE \<and> jsonStr = ''[DONE]'' then
              (case pipe_Write (line @ newline) p of
                 (ok, p') \<Rightarrow>
                   Inr (True, p',
                        if ok then [] else [LogError ''Failed to write streaming [DONE] marker'']))
            else
              (case Unmarshal L (if isSSE then jsonStr else line) of
                 Inl err \<Rightarrow>
                   (case pipe_Write (line @ newline) p of
                      (ok, p') \<Rightarrow>
                        Inr (True, p',
                             if ok then []
                             else [LogError ''Failed to write non-JSON streaming line'']))
               | Inr data \<Rightarrow>
                   (case stream_routes L headers query routes (data, False, [], []) of
                      Inl pn \<Rightarrow> Inl pn
                    | Inr (data', modified, appliedValues, lg) \<Rightarrow>
                        (case Marshal L data' of
                           Inl err \<Rightarrow>
                             (case pipe_Write (line @ newline) p of
                                (ok, p') \<Rightarrow>
                                  Inr (ok, p',
                                       lg @ [LogError ''Failed to marshal modified streaming chunk'']))
                         | Inr modifiedJSON \<Rightarrow>
                             (case (if isSSE then pipe_Write ''data: '' p else (True, p)) of
                                (ok1, p1) \<Rightarrow>
                                  if \<not> ok1 then Inr (False, p1, lg)
                                  else (case pipe_Write modifiedJSON p1 of
                                          (ok2, p2) \<Rightarrow>
                                            if \<not> ok2 then Inr (False, p2, lg)
                                            else (case pipe_Write newline p2 of
                                                    (ok3, p3) \<Rightarrow> Inr (ok3, p3, lg)))))))))"

text \<open>
  The scanner loop: the result tells whether the loop ran to the end of the lines
  (\<open>True\<close>) or the worker returned from inside it.
\<close>

fun streamLines ::
  "('re, 'tmpl) lib \<Rightarrow> ('re, 'tmpl) Route option list \<Rightarrow> strmap \<Rightarrow> strmap \<Rightarrow> string list
     \<Rightarrow> pipe \<Rightarrow> log_event list \<Rightarrow> go_panic + (bool \<times> pipe \<times> log_event list)" where
  "streamLines L routes headers query [] p lg = Inr (True, p, lg)"
| "streamLines L routes headers query (line # rest) p lg =
     (case streamLine L routes headers query line p of
        Inl pn \<Rightarrow> Inl pn
      | Inr (goes_on, p', lg') \<Rightarrow>
          if goes_on then streamLines L routes headers query rest p' (lg @ lg')
          else Inr (False, p', lg @ lg'))"

text \<open>
  What one iteration writes and logs when it starts on an empty pipe whose reader stays
  open (nothing, should the iteration panic).
\<close>

definition lineBytes ::
  "('re, 'tmpl) lib \<Rightarrow> ('re, 'tmpl) Route option list \<Rightarrow> strmap \<Rightarrow> strmap \<Rightarrow> string \<Rightarrow> string" where
  "lineBytes L routes headers query line =
     (case streamLine L routes headers query line \<lparr>written = [], writes_left = None\<rparr> of
        Inl pn \<Rightarrow> []
      | Inr (goes_on, p, lg) \<Rightarrow> written p)"

definition lineLogs ::
  "('re, 'tmpl) lib \<Rightarrow> ('re, 'tmpl) Route option list \<Rightarrow> strmap \<Rightarrow> strmap \<Rightarrow> string
     \<Rightarrow> log_event list" where
  "lineLogs L routes headers query line =
     (case streamLine L routes headers query line \<lparr>written = [], writes_left = None\<rparr> of
        Inl pn \<Rightarrow> []
      | Inr (goes_on, p, lg) \<Rightarrow> lg)"

text \<open>
  \<^verbatim>\<open>ModifyStreamingResponse\<close> with the run of its worker: the new body of the response
  is what the worker wrote to the pipe, ended by the scanner's error if the loop ran to
  its end and the scanner failed. \<open>reads\<close> is the number of writes after which the
  reader of the new body closes it, if it does. The route indices only label log
  events. A panic of the worker ends the process.
\<close>

definition ModifyStreamingResponse ::
  "('re, 'tmpl) lib \<Rightarrow> nat option \<Rightarrow> ('re, 'tmpl) response \<Rightarrow> ('re, 'tmpl) Route option list
     \<Rightarrow> go_panic + (('re, 'tmpl) response \<times> log_event list)" where
  "ModifyStreamingResponse L reads resp routes =
     (let headers = firstValues (resp_Header resp);
          query = extractQueryParams (req_URL_Query (resp_Request resp))
      in case Scan L (resp_Body resp) of
           (lines, scan_err) \<Rightarrow>
             (case streamLines L routes headers query lines
                     \<lparr>written = [], writes_left = reads\<rparr> [] of
                Inl pn \<Rightarrow> Inl pn
              | Inr (finished, p, lg) \<Rightarrow>
                  if finished \<and> scan_err \<noteq> None
                  then Inr (resp\<lparr>resp_Body := (written p, scan_err)\<rparr>,
                            lg @ [LogError ''Streaming scanner error''])
                  else Inr (resp\<lparr>resp_Body := (written p, None)\<rparr>, lg)))"

section \<open>proxy: the response processor\<close>

definition Header_Get :: "(string \<times> string list) list \<Rightarrow> string \<Rightarrow> string" where
  "Header_Get hs k = (case map_of hs k of Some (v # vs) \<Rightarrow> v | _ \<Rightarrow> [])"

definition contextRoutes ::
  "('re, 'tmpl) context_value \<Rightarrow> ('re, 'tmpl) Route option list \<times> int list" where
  "contextRoutes v =
     (case v of
        RouteContext (Some c) \<Rightarrow> (rules c, indices c)
      | SingleRoute r \<Rightarrow> ([r], [])
      | _ \<Rightarrow> ([], []))"

fun hasResponseOps :: "('re, 'tmpl) Route option list \<Rightarrow> go_panic + bool" where
  "hasResponseOps [] = Inr False"
| "hasResponseOps (None # rest) = Inl NilPointerDereference"
| "hasResponseOps (Some r # rest) = (if OnResponse r \<noteq> [] then Inr True else hasResponseOps rest)"

text \<open>The loop of \<^verbatim>\<open>ModifyResponse\<close> that runs the response actions of the matched routes.\<close>

fun ModifyResponse_loop ::
  "('re, 'tmpl) lib \<Rightarrow> strmap \<Rightarrow> strmap \<Rightarrow> ('re, 'tmpl) Route option list
     \<Rightarrow> gomap option \<times> bool \<times> gomap \<times> log_event list
     \<Rightarrow> go_panic + (gomap option \<times> bool \<times> gomap \<times> log_event list)" where
  "ModifyResponse_loop L headers query [] acc = Inr acc"
| "ModifyResponse_loop L headers query (None # rest) acc = Inl NilPointerDereference"
| "ModifyResponse_loop L headers query (Some route # rest) (data, anyModified, appliedValues, lg) =
     (if OnResponse route = [] \<or> Compiled route = None
      then ModifyResponse_loop L headers query rest (data, anyModified, appliedValues, lg)
      else (case ProcessResponse L data headers query (Compiled route) of
              Inl p \<Rightarrow> Inl p
            | Inr (modified, vals, data', lg') \<Rightarrow>
                ModifyResponse_loop L headers query rest
                  (data', if modified then True else anyModified,
                   copy_into appliedValues vals, lg @ lg')))"

text \<open>
  \<^verbatim>\<open>ModifyResponse\<close> returns an error or nil; the response it was given is mutated, so
  the model returns it as well. Its parameter \<^verbatim>\<open>routes\<close> is not used by the source.
\<close>

definition ModifyResponse ::
  "('re, 'tmpl) lib \<Rightarrow> nat option \<Rightarrow> ('re, 'tmpl) response
     \<Rightarrow> go_panic + (('re, 'tmpl) response \<times> error option \<times> log_event list)" where
  "ModifyResponse L reads resp =
     (let contentType = Header_Get (resp_Header resp) ''Content-Type'';
          matchedRoutes = fst (contextRoutes (req_Context (resp_Request resp)))
      in if Contains contentType ''text/event-stream'' then
           (case ModifyStreamingResponse L reads resp matchedRoutes of
              Inl p \<Rightarrow> Inl p
            | Inr (resp', lg) \<Rightarrow> Inr (resp', None, lg))
         else
           (case resp_Body resp of
              (bytes, Some e) \<Rightarrow>
                Inr (resp, Some (''failed to read response body: '' @ e), [])
            | (bytes, None) \<Rightarrow>
                (let body = take (10 * 1024 * 1024) bytes;
                     resp1 = resp\<lparr>resp_Body := (body, None),
                                  resp_ContentLength := int (length body)\<rparr>
                 in if matchedRoutes = [] then Inr (resp1, None, [])
                    else (case hasResponseOps matchedRoutes of
                            Inl p \<Rightarrow> Inl p
                          | Inr ops \<Rightarrow>
                              if \<not> ops then Inr (resp1, None, [])
                              else if \<not> Contains contentType ''application/json''
                              then Inr (resp1, None, [])
                              else (case Unmarshal L body of
                                      Inl e \<Rightarrow> Inr (resp1, None, [])
                                    | Inr data \<Rightarrow>
                                        (case ModifyResponse_loop L
                                                (firstValues (resp_Header resp1))
                                                (extractQueryParams
                                                   (req_URL_Query (resp_Request resp1)))
                                                matchedRoutes (data, False, [], []) of
                                           Inl p \<Rightarrow> Inl p
                                         | Inr (data', anyModified, appliedValues, lg) \<Rightarrow>
                                             (case Marshal L data' of
                                                Inl e \<Rightarrow>
                                                  Inr (resp1,
                                                       Some (''failed to marshal modified response JSON: '' @ e),
                                                       lg)
                                              | Inr modifiedBody \<Rightarrow>
                                                  Inr (resp1\<lparr>resp_Body := (modifiedBody, None),
                                                             resp_ContentLength :=
                                                               int (length modifiedBody)\<rparr>,
                                                       None, lg))))))))"


section \<open>An executable instance of the library parameters\<close>

text \<open>
  To run the definitions on concrete inputs the library parameters are instantiated with
  small executable stand-ins. They cover what the repository's tests use: patterns that
  are a plain word (found anywhere in the input, ignoring ASCII case), a word between
  \<^verbatim>\<open>^\<close> and \<^verbatim>\<open>$\<close> (the whole input, ignoring ASCII case) or \<^verbatim>\<open>.*\<close>; templates that
  are a literal text, a text around one field of the input, or failing; a table of JSON texts; a printer for flat JSON objects
  that writes the entries sorted by the bytes of their keys, as \<^verbatim>\<open>json.Marshal\<close> does for
  a map; the lines of \<^verbatim>\<open>bufio.ScanLines\<close>, for bodies whose lines fit the scanner's
  buffer.
\<close>

datatype demo_re = ReAnything | ReContains string | ReEquals string

definition demo_lower_char :: "char \<Rightarrow> char" where
  "demo_lower_char c =
     (case map_of (zip ''ABCDEFGHIJKLMNOPQRSTUVWXYZ'' ''abcdefghijklmnopqrstuvwxyz'') c of
        None \<Rightarrow> c | Some l \<Rightarrow> l)"

definition demo_ToLower :: "string \<Rightarrow> string" where
  "demo_ToLower s = map demo_lower_char s"

definition demo_Compile :: "string \<Rightarrow> error + demo_re" where
  "demo_Compile src =
     (let pat = TrimPrefix src ''(?i)'' in
      if CHR ''['' \<in> set pat then Inl ''error parsing regexp''
      else if pat = ''.*'' then Inr ReAnything
      else if HasPrefix pat ''^'' \<and> pat \<noteq> ''^'' \<and> last pat = CHR ''$''
        then Inr (ReEquals (butlast (tl pat)))
      else Inr (ReContains pat))"

fun demo_MatchString :: "demo_re \<Rightarrow> string \<Rightarrow> bool" where
  "demo_MatchString ReAnything s = True"
| "demo_MatchString (ReContains w) s = Contains (demo_ToLower s) (demo_ToLower w)"
| "demo_MatchString (ReEquals w) s = (demo_ToLower s = demo_ToLower w)"

fun demo_Sprint_v :: "val \<Rightarrow> string" where
  "demo_Sprint_v (VString s) = s"
| "demo_Sprint_v (VBool b) = (if b then ''true'' else ''false'')"
| "demo_Sprint_v VNil = ''<nil>''"
| "demo_Sprint_v v = []"

datatype demo_tmpl = Literal string | WithField string string string | Broken

fun demo_Execute :: "demo_tmpl \<Rightarrow> gomap option \<Rightarrow> error + string" where
  "demo_Execute (Literal txt) input = Inr txt"
| "demo_Execute (WithField before field after) input =
     Inr (before @ (case go_index input field of
                      None \<Rightarrow> ''<no value>''
                    | Some v \<Rightarrow> demo_Sprint_v v) @ after)"
| "demo_Execute Broken input = Inl ''template: error calling index''"

definition demo_json_texts :: "(string \<times> gomap) list" where
  \<open>demo_json_texts =
     [(''{}'', []),
      (''{"original":true}'', [(''original'', VBool True)]),
      (''{ "a": true }'', [(''a'', VBool True)]),
      (''{"a":true}'', [(''a'', VBool True)]),
      (''{"role":"assistant","content":"Hello"}'',
         [(''role'', VString ''assistant''), (''content'', VString ''Hello'')]),
      (''{"model":"llama3","temperature":0.8,"max_tokens":100}'',
         [(''model'', VString ''llama3''), (''temperature'', VFloat64 (8 / 10)),
          (''max_tokens'', VFloat64 100)])]\<close>

definition demo_Unmarshal :: "string \<Rightarrow> error + gomap option" where
  "demo_Unmarshal s =
     (if s = ''null'' then Inr None
      else case map_of demo_json_texts s of
             None \<Rightarrow> Inl ''invalid character''
           | Some m \<Rightarrow> Inr (Some m))"

fun demo_print_val :: "val \<Rightarrow> string option" where
  "demo_print_val VNil = Some ''null''"
| "demo_print_val (VBool b) = Some (if b then ''true'' else ''false'')"
| \<open>demo_print_val (VString s) = Some (''"'' @ s @ ''"'')\<close>
| "demo_print_val v = None"

fun demo_print_entries :: "gomap \<Rightarrow> string option" where
  "demo_print_entries [] = Some []"
| \<open>demo_print_entries ((k, v) # rest) =
     (case (demo_print_val v, demo_print_entries rest) of
        (Some pv, Some pr) \<Rightarrow>
          Some (''"'' @ k @ ''":'' @ pv @ (if rest = [] then [] else '','') @ pr)
      | _ \<Rightarrow> None)\<close>

fun demo_key_less :: "string \<Rightarrow> string \<Rightarrow> bool" where
  "demo_key_less a [] = False"
| "demo_key_less [] (y # b) = True"
| "demo_key_less (x # a) (y # b) =
     ((of_char x :: nat) < of_char y \<or> (x = y \<and> demo_key_less a b))"

fun demo_insert_entry :: "string \<times> val \<Rightarrow> gomap \<Rightarrow> gomap" where
  "demo_insert_entry e [] = [e]"
| "demo_insert_entry e (f # es) =
     (if demo_key_less (fst f) (fst e) then f # demo_insert_entry e es else e # f # es)"

definition demo_sort_entries :: "gomap \<Rightarrow> gomap" where
  "demo_sort_entries es = foldr demo_insert_entry es []"

definition demo_Marshal :: "gomap option \<Rightarrow> error + string" where
  "demo_Marshal m =
     (case m of
        None \<Rightarrow> Inr ''null''
      | Some es \<Rightarrow>
          (case demo_print_entries (demo_sort_entries es) of
             None \<Rightarrow> Inl ''json: unsupported value''
           | Some txt \<Rightarrow> Inr (''{'' @ txt @ ''}'')))"

definition demo_lib :: "(demo_re, demo_tmpl) lib" where
  "demo_lib = \<lparr> Compile = demo_Compile, MatchString = demo_MatchString,
                ToLower = demo_ToLower, Sprint_v = demo_Sprint_v,
                Execute = demo_Execute,
                Unmarshal = demo_Unmarshal, Marshal = demo_Marshal,
                Scan = (\<lambda>(bytes, err). (ScanLines bytes, err)) \<rparr>"

text \<open>
  The routes of the repository's tests, as validation and template compilation leave
  them: two routes for \<^verbatim>\<open>POST /v1/chat\<close> whose response actions merge \<^verbatim>\<open>first: true\<close>
  and \<^verbatim>\<open>second: "yes"\<close>, a route for another method, a route that merges in both
  phases, and a route whose response action is gated on the body field \<^verbatim>\<open>role\<close>.
\<close>

definition demo_merge_action :: "string \<Rightarrow> val \<Rightarrow> demo_re Action" where
  "demo_merge_action k v =
     \<lparr>Action.When = None, WhenAny = [], Action.Template = [], Action.Merge = [(k, v)],
      Action.Default = [], Action.Delete = [], Action.Stop = False\<rparr>"

definition demo_merge_exec :: "string \<Rightarrow> val \<Rightarrow> demo_re ActionExec" where
  "demo_merge_exec k v =
     \<lparr>When = None, Template = [], Merge = [(k, v)], Default = [], Delete = [], Stop = False\<rparr>"

definition demo_route ::
  "string \<Rightarrow> demo_re Action list \<Rightarrow> demo_re Action list \<Rightarrow> demo_re ActionExec list
     \<Rightarrow> demo_re ActionExec list \<Rightarrow> (demo_re, demo_tmpl) Route" where
  "demo_route method req_actions resp_actions req_execs resp_execs =
     \<lparr>Methods = \<lparr>Patterns = [method], PatternField.Compiled = [ReContains method]\<rparr>,
      Paths = \<lparr>Patterns = [''^/v1/chat$''], PatternField.Compiled = [ReEquals ''/v1/chat'']\<rparr>,
      TargetPath = [],
      OnRequest = req_actions,
      OnResponse = resp_actions,
      Compiled = Some \<lparr>CompiledRoute.OnRequest = req_execs,
                       CompiledRoute.OnResponse = resp_execs,
                       OnRequestTemplates = map (\<lambda>a. None) req_execs,
                       OnResponseTemplates = map (\<lambda>a. None) resp_execs\<rparr>\<rparr>"




definition demo_both :: "(demo_re, demo_tmpl) Route" where
  "demo_both = demo_route ''POST''
                 [demo_merge_action ''temperature'' (VFloat64 (7 / 10))]
                 [demo_merge_action ''processed'' (VBool True)]
                 [demo_merge_exec ''temperature'' (VFloat64 (7 / 10))]
                 [demo_merge_exec ''processed'' (VBool True)]"

definition demo_role_when :: "demo_re BoolExpr" where
  "demo_role_when =
     BoolExpr [(''role'', \<lparr>Patterns = [''.*''], PatternField.Compiled = [ReAnything]\<rparr>)]
       [] [] [] [] None"

definition demo_transform :: "(demo_re, demo_tmpl) Route" where
  "demo_transform =
     demo_route ''POST'' []
       [(demo_merge_action ''transformed'' (VBool True))\<lparr>Action.When := Some demo_role_when\<rparr>]
       []
       [(demo_merge_exec ''transformed'' (VBool True))\<lparr>When := Some demo_role_when\<rparr>]"

definition demo_request :: "string \<Rightarrow> (demo_re, demo_tmpl) request" where
  "demo_request body =
     \<lparr>req_Method = ''POST'', req_URL_Path = ''/v1/chat'', req_URL_Query = [],
      req_Header = [(''Content-Type'', [''application/json''])],
      req_Body = Some (body, None), req_ContentLength = int (length body),
      req_Context = NoValue\<rparr>"

definition demo_response ::
  "(demo_re, demo_tmpl) Route list \<Rightarrow> string \<Rightarrow> string \<Rightarrow> (demo_re, demo_tmpl) response" where
  "demo_response matched contentType body =
     \<lparr>resp_Request =
        (demo_request [])\<lparr>req_Context :=
           RouteContext (Some \<lparr>rules = map Some matched,
                                indices = map int [0 ..< length matched]\<rparr>)\<rparr>,
      resp_Header = [(''Content-Type'', [contentType])],
      resp_Body = (body, None), resp_ContentLength = int (length body)\<rparr>"


section \<open>Properties of the pattern matcher\<close>

lemma Matches_loop_iff:
  "Matches_loop L res s \<longleftrightarrow> (\<exists>re \<in> set res. MatchString L re s)"
  by (induction res) auto

lemma Validate_loop_ok:
  "Validate_loop L ps acc = (None, c) \<Longrightarrow>
     \<exists>cs. c = acc @ cs \<and> list_all2 (\<lambda>pat re. Compile L (''(?i)'' @ pat) = Inr re) ps cs"
proof (induction ps arbitrary: acc)
  case Nil
  then show ?case by simp
next
  case (Cons pat ps)
  then obtain re where re: "Compile L (''(?i)'' @ pat) = Inr re"
    by (cases "Compile L (''(?i)'' @ pat)") auto
  with Cons.prems have "Validate_loop L ps (acc @ [re]) = (None, c)" by simp
  from Cons.IH [OF this] obtain cs where
    "c = (acc @ [re]) @ cs" "list_all2 (\<lambda>pat re. Compile L (''(?i)'' @ pat) = Inr re) ps cs"
    by blast
  with re show ?case by (intro exI [of _ "re # cs"]) simp
qed

lemma Validate_ok:
  assumes "Validate L p = (None, p')"
  shows "Patterns p' = Patterns p"
    and "list_all2 (\<lambda>pat re. Compile L (''(?i)'' @ pat) = Inr re)
           (Patterns p) (PatternField.Compiled p')"
proof -
  obtain err c where vl: "Validate_loop L (Patterns p) [] = (err, c)"
    by (cases "Validate_loop L (Patterns p) []")
  with assms have e: "err = None" and p': "p' = p\<lparr>PatternField.Compiled := c\<rparr>"
    by (simp_all add: Validate_def)
  from Validate_loop_ok [of L "Patterns p" "[]" c] vl e
  have "list_all2 (\<lambda>pat re. Compile L (''(?i)'' @ pat) = Inr re) (Patterns p) c" by simp
  with p' show "Patterns p' = Patterns p"
    and "list_all2 (\<lambda>pat re. Compile L (''(?i)'' @ pat) = Inr re)
           (Patterns p) (PatternField.Compiled p')"
    by simp_all
qed

lemma list_all2_ex_iff:
  assumes "list_all2 R xs ys" and "\<And>x y y'. R x y \<Longrightarrow> R x y' \<Longrightarrow> y = y'"
  shows "(\<exists>y\<in>set ys. Q y) \<longleftrightarrow> (\<exists>x\<in>set xs. \<exists>y. R x y \<and> Q y)"
  using assms
proof (induction rule: list_all2_induct)
  case Nil
  then show ?case by simp
next
  case (Cons x xs y ys)
  have "(\<exists>y'. R x y' \<and> Q y') \<longleftrightarrow> Q y"
    using Cons.hyps(1) Cons.prems by blast
  with Cons.IH [OF Cons.prems] show ?case by simp
qed

text \<open>
  Claim C8. \<^verbatim>\<open>Matches\<close> is true iff one of the compiled expressions matches the input,
  and false when there is none. After a successful \<^verbatim>\<open>Validate\<close> the compiled
  expressions are, in order, the patterns compiled with the prefix \<^verbatim>\<open>(?i)\<close>, the
  case-insensitive flag of the regexp library, and matched with \<^verbatim>\<open>MatchString\<close>,
  which finds a match anywhere in the input; so \<^verbatim>\<open>Matches\<close> is true iff at least one
  pattern, compiled case-insensitively, matches. An empty pattern set validates to no
  expression and matches nothing.
\<close>

theorem Matches_iff_some_pattern_matches:
  "(Matches L p s \<longleftrightarrow> (\<exists>re \<in> set (PatternField.Compiled p). MatchString L re s))
   \<and> (PatternField.Compiled p = [] \<longrightarrow> \<not> Matches L p s)
   \<and> (Validate L p = (None, p') \<longrightarrow>
        Patterns p' = Patterns p
        \<and> list_all2 (\<lambda>pat re. Compile L (''(?i)'' @ pat) = Inr re)
             (Patterns p) (PatternField.Compiled p')
        \<and> (Matches L p' s \<longleftrightarrow>
             (\<exists>pat \<in> set (Patterns p).
                \<exists>re. Compile L (''(?i)'' @ pat) = Inr re \<and> MatchString L re s)))
   \<and> (Patterns p = [] \<longrightarrow>
        Validate L p = (None, p\<lparr>PatternField.Compiled := []\<rparr>)
        \<and> \<not> Matches L (snd (Validate L p)) s)"
proof (intro conjI impI)
  show "Matches L p s \<longleftrightarrow> (\<exists>re \<in> set (PatternField.Compiled p). MatchString L re s)"
    by (simp add: Matches_def Matches_loop_iff)
  show "\<not> Matches L p s" if "PatternField.Compiled p = []"
    using that by (simp add: Matches_def)
  show "Validate L p = (None, p\<lparr>PatternField.Compiled := []\<rparr>)" if "Patterns p = []"
    using that by (simp add: Validate_def)
  show "\<not> Matches L (snd (Validate L p)) s" if "Patterns p = []"
    using that by (simp add: Validate_def Matches_def)
next
  assume v: "Validate L p = (None, p')"
  show "Patterns p' = Patterns p" by (rule Validate_ok(1) [OF v])
  show c: "list_all2 (\<lambda>pat re. Compile L (''(?i)'' @ pat) = Inr re)
             (Patterns p) (PatternField.Compiled p')"
    by (rule Validate_ok(2) [OF v])
  have "(\<exists>re\<in>set (PatternField.Compiled p'). MatchString L re s) \<longleftrightarrow>
        (\<exists>pat\<in>set (Patterns p). \<exists>re. Compile L (''(?i)'' @ pat) = Inr re \<and> MatchString L re s)"
    by (rule list_all2_ex_iff [OF c]) simp
  then show "Matches L p' s \<longleftrightarrow>
      (\<exists>pat \<in> set (Patterns p). \<exists>re. Compile L (''(?i)'' @ pat) = Inr re \<and> MatchString L re s)"
    by (simp add: Matches_def Matches_loop_iff)
qed

text \<open>
  The theorem at the pattern set \<^verbatim>\<open>["prod"]\<close>: it validates, matches an input that
  contains the word in another case, and does not match an input without it; and at the
  empty pattern set, which matches nothing.
\<close>

theorem Matches_iff_some_pattern_matches_witness:
  "Validate demo_lib \<lparr>Patterns = [''prod''], PatternField.Compiled = []\<rparr>
     = (None, \<lparr>Patterns = [''prod''], PatternField.Compiled = [ReContains ''prod'']\<rparr>)
   \<and> Matches demo_lib \<lparr>Patterns = [''prod''], PatternField.Compiled = [ReContains ''prod'']\<rparr>
        ''my-PROD-env''
   \<and> \<not> Matches demo_lib \<lparr>Patterns = [''prod''], PatternField.Compiled = [ReContains ''prod'']\<rparr>
        ''staging''
   \<and> Patterns (\<lparr>Patterns = [], PatternField.Compiled = []\<rparr> :: demo_re PatternField) = []
   \<and> \<not> Matches demo_lib
         (snd (Validate demo_lib \<lparr>Patterns = [], PatternField.Compiled = []\<rparr>)) ''staging''"
proof -
  let ?p = "\<lparr>Patterns = [''prod''], PatternField.Compiled = []\<rparr> :: demo_re PatternField"
  let ?p' = "\<lparr>Patterns = [''prod''], PatternField.Compiled = [ReContains ''prod'']\<rparr>"
  let ?e = "\<lparr>Patterns = [], PatternField.Compiled = []\<rparr> :: demo_re PatternField"
  have v: "Validate demo_lib ?p = (None, ?p')"
    by code_simp
  have c: "Compile demo_lib (''(?i)'' @ ''prod'') = Inr (ReContains ''prod'')"
    by code_simp
  have m1: "MatchString demo_lib (ReContains ''prod'') ''my-PROD-env''"
    by code_simp
  have m2: "\<not> MatchString demo_lib (ReContains ''prod'') ''staging''"
    by code_simp
  have e: "Patterns ?e = []"
    by simp
  from Matches_iff_some_pattern_matches [of demo_lib ?p "''my-PROD-env''" ?p'] v c m1
  have "Matches demo_lib ?p' ''my-PROD-env''" by auto
  moreover
  from Matches_iff_some_pattern_matches [of demo_lib ?p "''staging''" ?p'] v c m2
  have "\<not> Matches demo_lib ?p' ''staging''" by auto
  moreover
  from Matches_iff_some_pattern_matches [of demo_lib ?e "''staging''" ?e] e
  have "\<not> Matches demo_lib (snd (Validate demo_lib ?e)) ''staging''" by blast
  ultimately show ?thesis using v e by blast
qed


section \<open>Properties of the predicate engine\<close>

lemma checkMatchers_iff:
  "checkMatchers L fs actual \<longleftrightarrow>
     (\<forall>(k, p) \<in> set fs. \<exists>v. map_of actual k = Some v \<and> Matches L p v)"
  by (induction fs) (auto split: option.splits if_splits)

lemma checkHeaderMatchers_iff:
  "checkHeaderMatchers L fs nh \<longleftrightarrow>
     (\<forall>(k, p) \<in> set fs. \<exists>v. map_of nh (ToLower L k) = Some v \<and> Matches L p v)"
  by (induction fs) (auto split: option.splits if_splits)

lemma map_of_fold_update:
  "map_of (fold (\<lambda>(k, v) acc. AList.update (f k) (g v) acc) xs acc) =
     map_of acc ++ map_of (rev (map (\<lambda>(k, v). (f k, g v)) xs))"
proof (induction xs arbitrary: acc)
  case Nil
  then show ?case by simp
next
  case (Cons x xs)
  obtain k v where x: "x = (k, v)" by (cases x)
  show ?case
    by (rule ext) (simp add: x Cons.IH update_conv' map_add_def split: option.splits)
qed

lemma map_of_rev_distinct:
  "distinct (map fst xs) \<Longrightarrow> map_of (rev xs) = map_of xs"
  by (rule map_of_inject_set [THEN iffD2]) (simp_all add: rev_map [symmetric])

lemma map_of_toStringMap:
  assumes "wf_map body"
  shows "map_of (toStringMap L body) k = map_option (Sprint_v L) (map_of body k)"
proof -
  have d: "distinct (map fst (map (\<lambda>(k, v). (k, Sprint_v L v)) body))"
    using assms by (simp add: wf_map_def case_prod_unfold comp_def)
  have "map_of (toStringMap L body) = map_of (rev (map (\<lambda>(k, v). (k, Sprint_v L v)) body))"
    unfolding toStringMap_def using map_of_fold_update [of "\<lambda>k. k" "Sprint_v L" body "[]"] by simp
  also have "\<dots> = map_of (map (\<lambda>(k, v). (k, Sprint_v L v)) body)"
    by (rule map_of_rev_distinct [OF d])
  finally show ?thesis by (simp add: map_of_map)
qed

lemma map_of_normalizeHeaders:
  assumes "distinct (map (\<lambda>h. ToLower L (fst h)) headers)"
  shows "map_of (normalizeHeaders L headers) k' = Some v \<longleftrightarrow>
           (\<exists>hk. (hk, v) \<in> set headers \<and> ToLower L hk = k')"
proof -
  let ?xs = "map (\<lambda>(k, v). (ToLower L k, v)) headers"
  have d: "distinct (map fst ?xs)"
    using assms by (simp add: case_prod_unfold comp_def)
  have "map_of (normalizeHeaders L headers) = map_of (rev ?xs)"
    unfolding normalizeHeaders_def
    using map_of_fold_update [of "ToLower L" "\<lambda>v. v" headers "[]"] by simp
  also have "\<dots> = map_of ?xs" by (rule map_of_rev_distinct [OF d])
  finally have "map_of (normalizeHeaders L headers) k' = Some v \<longleftrightarrow> (k', v) \<in> set ?xs"
    using d by simp
  also have "\<dots> \<longleftrightarrow> (\<exists>hk. (hk, v) \<in> set headers \<and> ToLower L hk = k')"
    by force
  finally show ?thesis .
qed

lemma Evaluate_And_iff:
  "Evaluate_And L es body headers query \<longleftrightarrow> (\<forall>e \<in> set es. Evaluate_node L e body headers query)"
  by (induction es) auto

lemma Evaluate_Or_iff:
  "Evaluate_Or L es body headers query \<longleftrightarrow> (\<exists>e \<in> set es. Evaluate_node L e body headers query)"
  by (induction es) auto

lemma Evaluate_node_iff:
  "Evaluate_node L b body headers query \<longleftrightarrow>
     evaluateLeafMatchers L b (toStringMap L body) (normalizeHeaders L headers) query
     \<and> (And b \<noteq> [] \<longrightarrow> (\<forall>e \<in> set (And b). Evaluate_node L e body headers query))
     \<and> (Or b \<noteq> [] \<longrightarrow> (\<exists>e \<in> set (Or b). Evaluate_node L e body headers query))
     \<and> (\<forall>e. Not' b = Some e \<longrightarrow> \<not> Evaluate_node L e body headers query)"
  by (cases b) (simp add: Evaluate_And_iff Evaluate_Or_iff split: option.splits)


text \<open>
  Claim C2. \<^verbatim>\<open>Evaluate\<close> is true for a nil node and for the empty node. For any node
  it is true iff every field named in the body, query and headers leaf maps is present
  in the input and its value matches the pattern (body values in their \<^verbatim>\<open>%v\<close> form),
  and, when \<^verbatim>\<open>and\<close> has sub-nodes, all of them are true, and, when \<^verbatim>\<open>or\<close> has
  sub-nodes, one of them is true, and, when \<^verbatim>\<open>not\<close> is set, its sub-node is false.
  A headers field is looked up by its lower-cased name in the input headers with their
  names lower-cased; when no two input header names agree up to case, this is the value
  of the input header whose lower-cased name equals the lower-cased field name.
\<close>

theorem Evaluate_boolean_semantics:
  assumes "wf_map (go_entries body)"
  shows "Evaluate L None body headers query
    \<and> Evaluate L (Some (BoolExpr [] [] [] [] [] None)) body headers query
    \<and> (Evaluate L (Some b) body headers query \<longleftrightarrow>
          (\<forall>(k, p) \<in> set (Body b). \<exists>v. go_index body k = Some v \<and> Matches L p (Sprint_v L v))
        \<and> (\<forall>(k, p) \<in> set (Query b). \<exists>v. map_of query k = Some v \<and> Matches L p v)
        \<and> (\<forall>(k, p) \<in> set (Headers b).
              \<exists>v. map_of (normalizeHeaders L headers) (ToLower L k) = Some v \<and> Matches L p v)
        \<and> (And b \<noteq> [] \<longrightarrow> (\<forall>e \<in> set (And b). Evaluate L (Some e) body headers query))
        \<and> (Or b \<noteq> [] \<longrightarrow> (\<exists>e \<in> set (Or b). Evaluate L (Some e) body headers query))
        \<and> (\<forall>e. Not' b = Some e \<longrightarrow> \<not> Evaluate L (Some e) body headers query))
    \<and> (distinct (map (\<lambda>h. ToLower L (fst h)) headers) \<longrightarrow>
          (\<forall>k v. map_of (normalizeHeaders L headers) (ToLower L k) = Some v \<longleftrightarrow>
                 (\<exists>hk. (hk, v) \<in> set headers \<and> ToLower L hk = ToLower L k)))"
proof (intro conjI impI allI)
  show "Evaluate L None body headers query"
    by (simp add: Evaluate_def)
  show "Evaluate L (Some (BoolExpr [] [] [] [] [] None)) body headers query"
    by (simp add: Evaluate_def evaluateLeafMatchers_def)
  have body: "(\<forall>(k, p) \<in> set (Body b).
                 \<exists>v. map_of (toStringMap L (go_entries body)) k = Some v \<and> Matches L p v) \<longleftrightarrow>
              (\<forall>(k, p) \<in> set (Body b).
                 \<exists>v. go_index body k = Some v \<and> Matches L p (Sprint_v L v))"
    by (auto simp: map_of_toStringMap [OF assms] go_index_def)
  show "Evaluate L (Some b) body headers query \<longleftrightarrow>
          (\<forall>(k, p) \<in> set (Body b). \<exists>v. go_index body k = Some v \<and> Matches L p (Sprint_v L v))
        \<and> (\<forall>(k, p) \<in> set (Query b). \<exists>v. map_of query k = Some v \<and> Matches L p v)
        \<and> (\<forall>(k, p) \<in> set (Headers b).
              \<exists>v. map_of (normalizeHeaders L headers) (ToLower L k) = Some v \<and> Matches L p v)
        \<and> (And b \<noteq> [] \<longrightarrow> (\<forall>e \<in> set (And b). Evaluate L (Some e) body headers query))
        \<and> (Or b \<noteq> [] \<longrightarrow> (\<exists>e \<in> set (Or b). Evaluate L (Some e) body headers query))
        \<and> (\<forall>e. Not' b = Some e \<longrightarrow> \<not> Evaluate L (Some e) body headers query)"
    unfolding Evaluate_def option.case
    by (subst Evaluate_node_iff)
       (simp add: evaluateLeafMatchers_def checkMatchers_iff checkHeaderMatchers_iff body)
next
  fix k v
  assume "distinct (map (\<lambda>h. ToLower L (fst h)) headers)"
  then show "map_of (normalizeHeaders L headers) (ToLower L k) = Some v \<longleftrightarrow>
             (\<exists>hk. (hk, v) \<in> set headers \<and> ToLower L hk = ToLower L k)"
    by (rule map_of_normalizeHeaders)
qed
text \<open>
  The theorem at a node with a body field, a headers field written \<^verbatim>\<open>Content-Type\<close>
  and a \<^verbatim>\<open>not\<close> sub-node, against a request whose header arrived as
  \<^verbatim>\<open>CONTENT-TYPE\<close>: the node is true, so its \<^verbatim>\<open>not\<close> sub-node is false, and the
  lower-cased lookup finds the header's value.
\<close>

theorem Evaluate_boolean_semantics_witness:
  "wf_map (go_entries (Some [(''model'', VString ''gpt-4'')]))
   \<and> distinct (map (\<lambda>h. ToLower demo_lib (fst h)) [(''CONTENT-TYPE'', ''application/json'')])
   \<and> Evaluate demo_lib
        (Some (BoolExpr
           [(''model'', \<lparr>Patterns = [''gpt''], PatternField.Compiled = [ReContains ''gpt'']\<rparr>)] []
           [(''Content-Type'',
             \<lparr>Patterns = [''json''], PatternField.Compiled = [ReContains ''json'']\<rparr>)] [] []
           (Some (BoolExpr
              [(''missing'', \<lparr>Patterns = [''.*''], PatternField.Compiled = [ReAnything]\<rparr>)]
              [] [] [] [] None))))
        (Some [(''model'', VString ''gpt-4'')]) [(''CONTENT-TYPE'', ''application/json'')] []
   \<and> \<not> Evaluate demo_lib
        (Some (BoolExpr
           [(''missing'', \<lparr>Patterns = [''.*''], PatternField.Compiled = [ReAnything]\<rparr>)]
           [] [] [] [] None))
        (Some [(''model'', VString ''gpt-4'')]) [(''CONTENT-TYPE'', ''application/json'')] []
   \<and> map_of (normalizeHeaders demo_lib [(''CONTENT-TYPE'', ''application/json'')])
         (ToLower demo_lib ''Content-Type'') = Some ''application/json''"
proof -
  let ?inner = "BoolExpr
      [(''missing'', \<lparr>Patterns = [''.*''], PatternField.Compiled = [ReAnything]\<rparr>)]
      [] [] [] [] None"
  let ?b = "BoolExpr
      [(''model'', \<lparr>Patterns = [''gpt''], PatternField.Compiled = [ReContains ''gpt'']\<rparr>)] []
      [(''Content-Type'', \<lparr>Patterns = [''json''], PatternField.Compiled = [ReContains ''json'']\<rparr>)]
      [] [] (Some ?inner)"
  let ?body = "Some [(''model'', VString ''gpt-4'')]"
  let ?headers = "[(''CONTENT-TYPE'', ''application/json'')]"
  note inst = Evaluate_boolean_semantics [of ?body demo_lib ?headers "[]" ?b]
  have wf: "wf_map (go_entries ?body)"
    by code_simp
  have d: "distinct (map (\<lambda>h. ToLower demo_lib (fst h)) ?headers)"
    by simp
  have ev: "Evaluate demo_lib (Some ?b) ?body ?headers []"
    by code_simp
  have n: "Not' ?b = Some ?inner"
    by simp
  have lc: "ToLower demo_lib ''CONTENT-TYPE'' = ToLower demo_lib ''Content-Type''"
    by code_simp
  from inst [OF wf] ev
  have "\<forall>e. Not' ?b = Some e \<longrightarrow> \<not> Evaluate demo_lib (Some e) ?body ?headers []"
    by blast
  with n have ni: "\<not> Evaluate demo_lib (Some ?inner) ?body ?headers []"
    by blast
  from inst [OF wf, THEN conjunct2, THEN conjunct2, THEN conjunct2, THEN mp, OF d,
      THEN spec, THEN spec, of "''Content-Type''" "''application/json''"] lc
  have "map_of (normalizeHeaders demo_lib ?headers) (ToLower demo_lib ''Content-Type'')
          = Some ''application/json''"
    by simp
  with wf d ev ni show ?thesis by blast
qed


section \<open>Properties of the action pipeline\<close>

lemma processActions_loop_stop:
  assumes "\<not> skipped L headers query op st" and "Stop op"
  shows "processActions_loop L headers query templates i (op # rest) st =
         processActions_loop L headers query templates i [op] st"
  using assms by (simp split: sum.splits)

lemma processActions_loop_append:
  "processActions_loop L headers query templates i (pre @ post) st =
     (case processActions_loop L headers query templates i pre st of
        Inl p \<Rightarrow> Inl p
      | Inr (stopped, st') \<Rightarrow>
          if stopped then Inr (True, st')
          else processActions_loop L headers query templates (i + length pre) post st')"
proof (induction pre arbitrary: i st)
  case Nil
  then show ?case by simp
next
  case (Cons op pre)
  show ?case
  proof (cases "skipped L headers query op st")
    case True
    then show ?thesis using Cons.IH [of "i + 1" st] by (simp split: sum.splits prod.splits)
  next
    case False
    show ?thesis
    proof (cases "runAction L templates i op st")
      case (Inl p)
      with False show ?thesis by simp
    next
      case (Inr st')
      with False show ?thesis using Cons.IH [of "i + 1" st']
        by (simp split: sum.splits prod.splits)
    qed
  qed
qed

lemma processActions_stop:
  assumes "Stop op"
    and "\<And>st. processActions_loop L headers query templates 0 pre
             \<lparr>pa_data = data0, pa_appliedValues = [], pa_anyApplied = False,
              pa_opExecuted = 0, pa_logs = []\<rparr> = Inr (False, st)
           \<Longrightarrow> \<not> skipped L headers query op st"
  shows "processActions L data0 headers query (pre @ op # rest) templates =
         processActions L data0 headers query (pre @ [op]) templates"
proof -
  let ?st0 = "\<lparr>pa_data = data0, pa_appliedValues = [], pa_anyApplied = False,
              pa_opExecuted = 0, pa_logs = []\<rparr>"
  have "processActions_loop L headers query templates 0 (pre @ op # rest) ?st0 =
        processActions_loop L headers query templates 0 (pre @ [op]) ?st0"
  proof (cases "processActions_loop L headers query templates 0 pre ?st0")
    case (Inl p)
    then show ?thesis by (simp add: processActions_loop_append)
  next
    case (Inr r)
    obtain stopped st where r: "r = (stopped, st)" by (cases r)
    show ?thesis
    proof (cases stopped)
      case True
      with Inr r show ?thesis by (simp add: processActions_loop_append)
    next
      case False
      with Inr r assms(2) have "\<not> skipped L headers query op st" by simp
      from processActions_loop_stop [OF this assms(1)] Inr r False
      show ?thesis by (simp add: processActions_loop_append)
    qed
  qed
  then show ?thesis by (simp add: processActions_def)
qed

text \<open>
  Claim C1. First the scenario of the repository's test: a merge of \<^verbatim>\<open>seen: 1\<close> gated on
  the header \<^verbatim>\<open>X-Env\<close> matching \<^verbatim>\<open>prod\<close>, a delete of \<^verbatim>\<open>remove_me\<close> with the stop
  flag gated on the body field \<^verbatim>\<open>remove_me\<close> matching \<^verbatim>\<open>.*\<close>, and a merge of
  \<^verbatim>\<open>unreachable: true\<close>, run on the body \<^verbatim>\<open>{keep: "x", remove_me: "y"}\<close> with the header
  \<^verbatim>\<open>X-Env: prod\<close> and no query. For every library in which the compiled \<^verbatim>\<open>prod\<close>
  matches \<^verbatim>\<open>prod\<close> and the compiled \<^verbatim>\<open>.*\<close> matches the text of \<^verbatim>\<open>"y"\<close>, the run
  reports a change, the body becomes \<^verbatim>\<open>{keep: "x", seen: 1}\<close>, the applied values are
  \<^verbatim>\<open>seen: 1\<close> and \<^verbatim>\<open>remove_me: "<deleted>"\<close>, and \<^verbatim>\<open>unreachable\<close> is in neither map.
  Then the general law: when the loop reaches an action with the stop flag that is not
  skipped, the remaining actions do not matter; and a run over a list with such an
  action equals the run over the list cut after it. Neither statement asks whether the
  action changed anything.
\<close>

theorem stop_halts_remaining_actions:
  fixes L :: "('re, 'tmpl) lib"
  shows
  "(MatchString L re_prod ''prod'' \<longrightarrow> MatchString L re_any (Sprint_v L (VString ''y'')) \<longrightarrow>
     (\<exists>applied body.
        processActions L (Some [(''keep'', VString ''x''), (''remove_me'', VString ''y'')])
          [(''X-Env'', ''prod'')] []
          [\<lparr>When = Some (BoolExpr [] []
               [(''X-Env'', \<lparr>Patterns = [''prod''], PatternField.Compiled = [re_prod]\<rparr>)]
               [] [] None),
            Template = [], Merge = [(''seen'', VInt 1)], Default = [], Delete = [],
            Stop = False\<rparr>,
           \<lparr>When = Some (BoolExpr
               [(''remove_me'', \<lparr>Patterns = [''.*''], PatternField.Compiled = [re_any]\<rparr>)]
               [] [] [] [] None),
            Template = [], Merge = [], Default = [], Delete = [''remove_me''], Stop = True\<rparr>,
           \<lparr>When = None, Template = [], Merge = [(''unreachable'', VBool True)], Default = [],
            Delete = [], Stop = False\<rparr>] []
        = Inr (True, applied, Some body,
               [LogDebug ''Action stop flag set'', LogDebug ''Route applied request changes''])
        \<and> body = [(''keep'', VString ''x''), (''seen'', VInt 1)]
        \<and> map_of applied ''seen'' = Some (VInt 1)
        \<and> map_of applied ''remove_me'' = Some (VString ''<deleted>'')
        \<and> map_of body ''unreachable'' = None
        \<and> map_of applied ''unreachable'' = None))
   \<and> (\<forall>headers query templates i op rest st.
         \<not> skipped L headers query op st \<longrightarrow> Stop op \<longrightarrow>
           processActions_loop L headers query templates i (op # rest) st =
           processActions_loop L headers query templates i [op] st)
   \<and> (\<forall>data0 headers query templates pre op rest.
         Stop op \<longrightarrow>
         (\<forall>st. processActions_loop L headers query templates 0 pre
                  \<lparr>pa_data = data0, pa_appliedValues = [], pa_anyApplied = False,
                   pa_opExecuted = 0, pa_logs = []\<rparr> = Inr (False, st)
               \<longrightarrow> \<not> skipped L headers query op st) \<longrightarrow>
           processActions L data0 headers query (pre @ op # rest) templates =
           processActions L data0 headers query (pre @ [op]) templates)"
proof (intro conjI impI allI)
  assume m1: "MatchString L re_prod ''prod''"
    and m2: "MatchString L re_any (Sprint_v L (VString ''y''))"
  have "processActions L (Some [(''keep'', VString ''x''), (''remove_me'', VString ''y'')])
          [(''X-Env'', ''prod'')] []
          [\<lparr>When = Some (BoolExpr [] []
               [(''X-Env'', \<lparr>Patterns = [''prod''], PatternField.Compiled = [re_prod]\<rparr>)]
               [] [] None),
            Template = [], Merge = [(''seen'', VInt 1)], Default = [], Delete = [],
            Stop = False\<rparr>,
           \<lparr>When = Some (BoolExpr
               [(''remove_me'', \<lparr>Patterns = [''.*''], PatternField.Compiled = [re_any]\<rparr>)]
               [] [] [] [] None),
            Template = [], Merge = [], Default = [], Delete = [''remove_me''], Stop = True\<rparr>,
           \<lparr>When = None, Template = [], Merge = [(''unreachable'', VBool True)], Default = [],
            Delete = [], Stop = False\<rparr>] []
        = Inr (True, [(''seen'', VInt 1), (''remove_me'', VString ''<deleted>'')],
               Some [(''keep'', VString ''x''), (''seen'', VInt 1)],
               [LogDebug ''Action stop flag set'', LogDebug ''Route applied request changes''])"
    using m1 m2
    by (simp add: processActions_def skipped_def Evaluate_def go_entries_def
        evaluateLeafMatchers_def toStringMap_def normalizeHeaders_def Matches_def
        runAction_def templateStep_def defaultStep_def mergeStep_def deleteStep_def
        go_assign_def go_index_def go_delete_def copy_into_def)
  then show "\<exists>applied body.
        processActions L (Some [(''keep'', VString ''x''), (''remove_me'', VString ''y'')])
          [(''X-Env'', ''prod'')] []
          [\<lparr>When = Some (BoolExpr [] []
               [(''X-Env'', \<lparr>Patterns = [''prod''], PatternField.Compiled = [re_prod]\<rparr>)]
               [] [] None),
            Template = [], Merge = [(''seen'', VInt 1)], Default = [], Delete = [],
            Stop = False\<rparr>,
           \<lparr>When = Some (BoolExpr
               [(''remove_me'', \<lparr>Patterns = [''.*''], PatternField.Compiled = [re_any]\<rparr>)]
               [] [] [] [] None),
            Template = [], Merge = [], Default = [], Delete = [''remove_me''], Stop = True\<rparr>,
           \<lparr>When = None, Template = [], Merge = [(''unreachable'', VBool True)], Default = [],
            Delete = [], Stop = False\<rparr>] []
        = Inr (True, applied, Some body,
               [LogDebug ''Action stop flag set'', LogDebug ''Route applied request changes''])
        \<and> body = [(''keep'', VString ''x''), (''seen'', VInt 1)]
        \<and> map_of applied ''seen'' = Some (VInt 1)
        \<and> map_of applied ''remove_me'' = Some (VString ''<deleted>'')
        \<and> map_of body ''unreachable'' = None
        \<and> map_of applied ''unreachable'' = None"
    by simp
next
  fix headers query :: strmap and templates :: "'tmpl option list" and i
    and op :: "'re ActionExec" and rest st
  assume "\<not> skipped L headers query op st" and "Stop op"
  then show "processActions_loop L headers query templates i (op # rest) st =
             processActions_loop L headers query templates i [op] st"
    by (rule processActions_loop_stop)
next
  fix data0 and headers query :: strmap and templates :: "'tmpl option list"
    and pre :: "'re ActionExec list" and op rest
  assume "Stop op"
    and "\<forall>st. processActions_loop L headers query templates 0 pre
                  \<lparr>pa_data = data0, pa_appliedValues = [], pa_anyApplied = False,
                   pa_opExecuted = 0, pa_logs = []\<rparr> = Inr (False, st)
               \<longrightarrow> \<not> skipped L headers query op st"
  then show "processActions L data0 headers query (pre @ op # rest) templates =
             processActions L data0 headers query (pre @ [op]) templates"
    by (intro processActions_stop) auto
qed

text \<open>
  The theorem at the executable library, whose compiled \<^verbatim>\<open>prod\<close> and \<^verbatim>\<open>.*\<close> match as
  the scenario needs: the run of the test's three actions; the loop at the second
  action, in the state the first action leaves, with and without the third action; and
  the run of the three actions equal to the run of the first two.
\<close>

theorem stop_halts_remaining_actions_witness:
  "MatchString demo_lib (ReContains ''prod'') ''prod''
   \<and> MatchString demo_lib ReAnything (Sprint_v demo_lib (VString ''y''))
   \<and> (\<exists>applied.
        processActions demo_lib
          (Some [(''keep'', VString ''x''), (''remove_me'', VString ''y'')])
          [(''X-Env'', ''prod'')] []
          [\<lparr>When = Some (BoolExpr [] []
               [(''X-Env'',
                 \<lparr>Patterns = [''prod''], PatternField.Compiled = [ReContains ''prod'']\<rparr>)]
               [] [] None),
            Template = [], Merge = [(''seen'', VInt 1)], Default = [], Delete = [],
            Stop = False\<rparr>,
           \<lparr>When = Some (BoolExpr
               [(''remove_me'', \<lparr>Patterns = [''.*''], PatternField.Compiled = [ReAnything]\<rparr>)]
               [] [] [] [] None),
            Template = [], Merge = [], Default = [], Delete = [''remove_me''], Stop = True\<rparr>,
           \<lparr>When = None, Template = [], Merge = [(''unreachable'', VBool True)], Default = [],
            Delete = [], Stop = False\<rparr>] ([] :: demo_tmpl option list)
        = Inr (True, applied, Some [(''keep'', VString ''x''), (''seen'', VInt 1)],
               [LogDebug ''Action stop flag set'', LogDebug ''Route applied request changes''])
        \<and> map_of applied ''remove_me'' = Some (VString ''<deleted>'')
        \<and> map_of applied ''unreachable'' = None)
   \<and> \<not> skipped demo_lib [(''X-Env'', ''prod'')] []
         \<lparr>When = Some (BoolExpr
             [(''remove_me'', \<lparr>Patterns = [''.*''], PatternField.Compiled = [ReAnything]\<rparr>)]
             [] [] [] [] None),
          Template = [], Merge = [], Default = [], Delete = [''remove_me''], Stop = True\<rparr>
         \<lparr>pa_data = Some [(''keep'', VString ''x''), (''remove_me'', VString ''y''),
                           (''seen'', VInt 1)],
          pa_appliedValues = [(''seen'', VInt 1)], pa_anyApplied = True, pa_opExecuted = 1,
          pa_logs = []\<rparr>
   \<and> processActions_loop demo_lib [(''X-Env'', ''prod'')] [] ([] :: demo_tmpl option list) 1
         [\<lparr>When = Some (BoolExpr
             [(''remove_me'', \<lparr>Patterns = [''.*''], PatternField.Compiled = [ReAnything]\<rparr>)]
             [] [] [] [] None),
           Template = [], Merge = [], Default = [], Delete = [''remove_me''], Stop = True\<rparr>,
          \<lparr>When = None, Template = [], Merge = [(''unreachable'', VBool True)], Default = [],
           Delete = [], Stop = False\<rparr>]
         \<lparr>pa_data = Some [(''keep'', VString ''x''), (''remove_me'', VString ''y''),
                           (''seen'', VInt 1)],
          pa_appliedValues = [(''seen'', VInt 1)], pa_anyApplied = True, pa_opExecuted = 1,
          pa_logs = []\<rparr>
     = processActions_loop demo_lib [(''X-Env'', ''prod'')] [] [] 1
         [\<lparr>When = Some (BoolExpr
             [(''remove_me'', \<lparr>Patterns = [''.*''], PatternField.Compiled = [ReAnything]\<rparr>)]
             [] [] [] [] None),
           Template = [], Merge = [], Default = [], Delete = [''remove_me''], Stop = True\<rparr>]
         \<lparr>pa_data = Some [(''keep'', VString ''x''), (''remove_me'', VString ''y''),
                           (''seen'', VInt 1)],
          pa_appliedValues = [(''seen'', VInt 1)], pa_anyApplied = True, pa_opExecuted = 1,
          pa_logs = []\<rparr>"
proof -
  let ?op2 = "\<lparr>When = Some (BoolExpr
             [(''remove_me'', \<lparr>Patterns = [''.*''], PatternField.Compiled = [ReAnything]\<rparr>)]
             [] [] [] [] None),
          Template = [], Merge = [], Default = [], Delete = [''remove_me''], Stop = True\<rparr>"
  let ?op3 = "\<lparr>When = None, Template = [], Merge = [(''unreachable'', VBool True)],
          Default = [], Delete = [], Stop = False\<rparr> :: demo_re ActionExec"
  let ?st1 = "\<lparr>pa_data = Some [(''keep'', VString ''x''), (''remove_me'', VString ''y''),
                           (''seen'', VInt 1)],
          pa_appliedValues = [(''seen'', VInt 1)], pa_anyApplied = True, pa_opExecuted = 1,
          pa_logs = []\<rparr>"
  note inst = stop_halts_remaining_actions [of demo_lib "ReContains ''prod''" ReAnything]
  have m1: "MatchString demo_lib (ReContains ''prod'') ''prod''"
    by code_simp
  have m2: "MatchString demo_lib ReAnything (Sprint_v demo_lib (VString ''y''))"
    by code_simp
  have ns: "\<not> skipped demo_lib [(''X-Env'', ''prod'')] [] ?op2 ?st1"
    by code_simp
  have st: "Stop ?op2"
    by simp
  from inst [THEN conjunct2, THEN conjunct1, THEN spec, THEN spec, THEN spec, THEN spec,
      THEN spec, THEN spec, THEN spec, THEN mp, THEN mp, OF ns st,
      of "[] :: demo_tmpl option list" 1 "[?op3]"]
  have lp: "processActions_loop demo_lib [(''X-Env'', ''prod'')] [] ([] :: demo_tmpl option list) 1
              [?op2, ?op3] ?st1
            = processActions_loop demo_lib [(''X-Env'', ''prod'')] [] [] 1 [?op2] ?st1" .
  from inst [THEN conjunct1, THEN mp, THEN mp, OF m1 m2] m1 m2 ns lp
  show ?thesis by blast
qed


section \<open>Properties of template actions\<close>

lemma fold_delete_filter:
  "fold AList.delete ks d = filter (\<lambda>p. fst p \<notin> set ks) d"
proof (induction ks arbitrary: d)
  case Nil
  then show ?case by simp
next
  case (Cons k ks)
  have "AList.delete k d = filter (\<lambda>p. k \<noteq> fst p) d"
    by (simp add: AList.delete_eq case_prod_unfold)
  with Cons.IH [of "AList.delete k d"] show ?case
    by (auto intro: filter_cong)
qed

lemma fold_go_delete_Some:
  "fold (\<lambda>k m. go_delete m k) ks (Some d) = Some (fold AList.delete ks d)"
  by (induction ks arbitrary: d) (simp_all add: go_delete_def)

lemma delete_all_Some: "delete_all (Some d) = Some []"
  by (simp add: delete_all_def go_entries_def fold_go_delete_Some fold_delete_filter)

lemma delete_all_None: "delete_all None = None"
  by (simp add: delete_all_def go_entries_def)

lemma assign_entries_Some:
  "assign_entries (Some acc) r = Inr (Some (copy_into acc r))"
  by (induction r arbitrary: acc) (auto simp: go_assign_def copy_into_def)

lemma map_of_copy_into:
  "map_of (copy_into acc r) = map_of acc ++ map_of (rev r)"
  unfolding copy_into_def
  using map_of_fold_update [of "\<lambda>k. k" "\<lambda>v. v" r acc] by simp

lemma map_of_copy_into_wf:
  "wf_map r \<Longrightarrow> map_of (copy_into acc r) = map_of acc ++ map_of r"
  by (simp add: map_of_copy_into wf_map_def map_of_rev_distinct)

lemma wf_map_copy_into: "wf_map acc \<Longrightarrow> wf_map (copy_into acc r)"
  unfolding copy_into_def wf_map_def
  by (induction r arbitrary: acc) (auto simp: distinct_update)

lemma ExecuteTemplate_ok:
  assumes "Execute L tmpl input = Inr buf" and "Unmarshal L buf = Inr result"
  shows "ExecuteTemplate L tmpl input (Some d) =
           Inr (True, Some (copy_into [] (go_entries result)), [])"
  using assms by (simp add: ExecuteTemplate_def delete_all_Some assign_entries_Some)


lemma applyMerge_Some:
  "applyMerge (Some d) m ch = Inr (Some (copy_into d m), copy_into ch m)"
  by (induction m arbitrary: d ch) (auto simp: go_assign_def copy_into_def)

lemma applyDefault_Some:
  "\<exists>d' ch'. applyDefault (Some d) m ch = Inr (Some d', ch')"
  by (induction m arbitrary: d ch) (auto simp: go_assign_def)

lemma applyDelete_Some:
  "\<exists>d' ch'. applyDelete (Some d) ks ch = (Some d', ch')"
  by (induction ks arbitrary: d ch) (auto simp: go_delete_def)

lemma ExecuteTemplate_Some:
  "\<exists>ok d' lg. ExecuteTemplate L tmpl input (Some d) = Inr (ok, Some d', lg)"
  by (auto simp: ExecuteTemplate_def delete_all_Some assign_entries_Some split: sum.splits)

lemma templateStep_Some:
  assumes "pa_data st = Some d" and "Template op \<noteq> [] \<longrightarrow> i < length templates"
  shows "\<exists>st' ch' d'. templateStep L templates i op st ch = Inr (st', ch') \<and> pa_data st' = Some d'"
proof (cases "Template op \<noteq> [] \<and> templates ! i \<noteq> None")
  case True
  then obtain tmpl where t: "templates ! i = Some tmpl" by auto
  from ExecuteTemplate_Some [of L tmpl "Some d" d] obtain ok d' lg where
    "ExecuteTemplate L tmpl (Some d) (Some d) = Inr (ok, Some d', lg)" by blast
  with True t assms show ?thesis by (simp add: templateStep_def)
next
  case False
  with assms show ?thesis by (auto simp: templateStep_def)
qed

lemma defaultStep_Some:
  assumes "pa_data st = Some d"
  shows "\<exists>st' ch' d'. defaultStep op st ch = Inr (st', ch') \<and> pa_data st' = Some d'"
proof (cases "Default op = []")
  case True
  with assms show ?thesis by (simp add: defaultStep_def)
next
  case False
  from applyDefault_Some [of d "Default op" ch] obtain d' ch' where
    "applyDefault (Some d) (Default op) ch = Inr (Some d', ch')" by blast
  with False assms show ?thesis by (simp add: defaultStep_def)
qed

lemma mergeStep_Some:
  assumes "pa_data st = Some d"
  shows "\<exists>st' ch' d'. mergeStep op st ch = Inr (st', ch') \<and> pa_data st' = Some d'"
  using assms by (simp add: mergeStep_def applyMerge_Some)

lemma deleteStep_Some:
  assumes "pa_data st = Some d"
  shows "\<exists>st' ch' d'. deleteStep op st ch = (st', ch') \<and> pa_data st' = Some d'"
proof (cases "Delete op = []")
  case True
  with assms show ?thesis by (simp add: deleteStep_def)
next
  case False
  from applyDelete_Some [of d "Delete op" ch] obtain d' ch' where
    "applyDelete (Some d) (Delete op) ch = (Some d', ch')" by blast
  with False assms show ?thesis by (simp add: deleteStep_def)
qed

lemma runAction_Some:
  assumes "pa_data st = Some d" and "Template op \<noteq> [] \<longrightarrow> i < length templates"
  shows "\<exists>st' d'. runAction L templates i op st = Inr st' \<and> pa_data st' = Some d'"
proof -
  from templateStep_Some [OF assms, of L "[]"] obtain st1 ch1 d1 where
    s1: "templateStep L templates i op st [] = Inr (st1, ch1)" "pa_data st1 = Some d1" by blast
  from defaultStep_Some [OF s1(2), of op ch1] obtain st2 ch2 d2 where
    s2: "defaultStep op st1 ch1 = Inr (st2, ch2)" "pa_data st2 = Some d2" by blast
  from mergeStep_Some [OF s2(2), of op ch2] obtain st3 ch3 d3 where
    s3: "mergeStep op st2 ch2 = Inr (st3, ch3)" "pa_data st3 = Some d3" by blast
  from deleteStep_Some [OF s3(2), of op ch3] obtain st4 ch4 d4 where
    s4: "deleteStep op st3 ch3 = (st4, ch4)" "pa_data st4 = Some d4" by blast
  from s1 s2 s3 s4 show ?thesis by (simp add: runAction_def)
qed

lemma processActions_loop_Some:
  assumes "pa_data st = Some d"
    and "\<forall>j < length ops. Template (ops ! j) \<noteq> [] \<longrightarrow> i + j < length templates"
  shows "\<exists>b st' d'. processActions_loop L headers query templates i ops st = Inr (b, st')
           \<and> pa_data st' = Some d'"
  using assms
proof (induction ops arbitrary: i st d)
  case Nil
  then show ?case by auto
next
  case (Cons op ops)
  have rest: "\<forall>j < length ops. Template (ops ! j) \<noteq> [] \<longrightarrow> (i + 1) + j < length templates"
    using Cons.prems(2) by fastforce
  show ?case
  proof (cases "skipped L headers query op st")
    case True
    with Cons.IH [OF Cons.prems(1) rest] show ?thesis by simp
  next
    case False
    have "Template op \<noteq> [] \<longrightarrow> i < length templates"
      using Cons.prems(2) by fastforce
    from runAction_Some [OF Cons.prems(1) this, of L] obtain st' d' where
      r: "runAction L templates i op st = Inr st'" "pa_data st' = Some d'" by blast
    show ?thesis
    proof (cases "Stop op")
      case True
      with False r show ?thesis by auto
    next
      case stop: False
      with False r Cons.IH [OF r(2) rest] show ?thesis by simp
    qed
  qed
qed

lemma processActions_Some:
  assumes "\<forall>j < length ops. Template (ops ! j) \<noteq> [] \<longrightarrow> j < length templates"
  shows "\<exists>m av d' lg. processActions L (Some d) headers query ops templates
           = Inr (m, av, Some d', lg)"
proof -
  let ?st0 = "\<lparr>pa_data = Some d, pa_appliedValues = [], pa_anyApplied = False,
              pa_opExecuted = 0, pa_logs = []\<rparr>"
  have "pa_data ?st0 = Some d" by simp
  from processActions_loop_Some [OF this, of ops 0 templates L headers query] assms
  obtain b st' d' where
    "processActions_loop L headers query templates 0 ops ?st0 = Inr (b, st')"
    "pa_data st' = Some d'" by auto
  then show ?thesis by (simp add: processActions_def)
qed


lemma ExecuteTemplate_failure:
  assumes "Execute L tmpl input = Inl e \<or> (\<exists>buf. Execute L tmpl input = Inr buf \<and> Unmarshal L buf = Inl e)"
  shows "\<exists>msg. ExecuteTemplate L tmpl input output = Inr (False, output, [LogError msg])"
  using assms by (auto simp: ExecuteTemplate_def)

text \<open>
  Claim C3. When the template executes and its text parses, \<^verbatim>\<open>ExecuteTemplate\<close>
  returns true and leaves in the body exactly the entries of the parsed object: every
  old key that the template output does not have is gone (for the output \<^verbatim>\<open>null\<close> the
  parsed map is nil and the body is left empty). The template step of the pipeline
  then copies every entry of the new body, with its rendered value, into the applied
  values and into the changes of the action, and marks the pass as changed; nothing
  else is recorded. A pass over one action that has only a template reports a change
  and returns the rendered object both as the body and as the applied values.
\<close>

theorem template_success_replaces_body:
  fixes L :: "('re, 'tmpl) lib"
  assumes ex: "Execute L tmpl (Some d) = Inr buf"
    and um: "Unmarshal L buf = Inr result"
    and wf: "wf_map (go_entries result)"
  shows "\<exists>d'. ExecuteTemplate L tmpl (Some d) (Some d) = Inr (True, Some d', [])
      \<and> wf_map d' \<and> map_of d' = map_of (go_entries result)
      \<and> (\<forall>k. k \<notin> fst ` set (go_entries result) \<longrightarrow> map_of d' k = None)
      \<and> (\<forall>op st ch templates i.
            Template op \<noteq> [] \<longrightarrow> i < length templates \<longrightarrow> templates ! i = Some tmpl \<longrightarrow>
            pa_data st = Some d \<longrightarrow>
              templateStep L templates i op st ch =
                Inr (st\<lparr>pa_data := Some d',
                        pa_appliedValues := copy_into (pa_appliedValues st) d',
                        pa_anyApplied := True\<rparr>, copy_into ch d')
              \<and> map_of (copy_into (pa_appliedValues st) d') =
                  map_of (pa_appliedValues st) ++ map_of d'
              \<and> (\<forall>k v. map_of d' k = Some v \<longrightarrow>
                    map_of (copy_into (pa_appliedValues st) d') k = Some v))
      \<and> (\<forall>headers query op.
            When op = None \<longrightarrow> Template op \<noteq> [] \<longrightarrow>
            Default op = [] \<longrightarrow> Merge op = [] \<longrightarrow> Delete op = [] \<longrightarrow>
              (\<exists>applied lg.
                 processActions L (Some d) headers query [op] [Some tmpl] =
                   Inr (True, applied, Some d', lg)
                 \<and> map_of applied = map_of d'))"
proof -
  let ?d' = "copy_into [] (go_entries result)"
  have et: "ExecuteTemplate L tmpl (Some d) (Some d) = Inr (True, Some ?d', [])"
    by (rule ExecuteTemplate_ok [OF ex um])
  have wfd: "wf_map ?d'"
    by (rule wf_map_copy_into) (simp add: wf_map_def)
  have m: "map_of ?d' = map_of (go_entries result)"
    by (simp add: map_of_copy_into_wf [OF wf])
  have absent: "\<forall>k. k \<notin> fst ` set (go_entries result) \<longrightarrow> map_of ?d' k = None"
    by (simp add: m map_of_eq_None_iff)
  have wfd': "distinct (map fst ?d')"
    using wfd by (simp add: wf_map_def)
  have step: "templateStep L templates i op st ch =
                Inr (st\<lparr>pa_data := Some ?d',
                        pa_appliedValues := copy_into (pa_appliedValues st) ?d',
                        pa_anyApplied := True\<rparr>, copy_into ch ?d')"
    if "Template op \<noteq> []" "i < length templates" "templates ! i = Some tmpl"
      "pa_data st = Some d"
    for op :: "'re ActionExec" and st ch templates i
    using that et by (simp add: templateStep_def go_entries_def)
  have ap: "map_of (copy_into acc ?d') = map_of acc ++ map_of ?d'" for acc
    using wfd by (rule map_of_copy_into_wf)
  have rec: "map_of (copy_into acc ?d') k = Some v" if "map_of ?d' k = Some v" for acc k v
    using that by (simp add: ap)
  have e2e: "\<exists>applied lg.
                 processActions L (Some d) headers query [op] [Some tmpl] =
                   Inr (True, applied, Some ?d', lg)
                 \<and> map_of applied = map_of ?d'"
    if "When op = None" "Template op \<noteq> []" "Default op = []" "Merge op = []" "Delete op = []"
    for headers query and op :: "'re ActionExec"
  proof -
    have "processActions L (Some d) headers query [op] [Some tmpl] =
            Inr (True, copy_into [] ?d', Some ?d',
                 (if Stop op then [LogDebug ''Action stop flag set''] else [])
                   @ [LogDebug ''Route applied request changes''])"
      using that et
      by (simp add: processActions_def skipped_def runAction_def templateStep_def
          defaultStep_def mergeStep_def deleteStep_def go_entries_def)
    moreover have "map_of (copy_into [] ?d') = map_of ?d'"
      by (simp add: ap)
    ultimately show ?thesis by blast
  qed
  from et wfd m absent step ap rec e2e show ?thesis
    by (intro exI [of _ ?d']) blast
qed

text \<open>
  The theorem at the template of the repository's test, rendered against a body with the
  keys \<^verbatim>\<open>model\<close> and \<^verbatim>\<open>messages\<close>: the body and the applied values of the pass hold
  the rendered keys, and no key \<^verbatim>\<open>template\<close>.
\<close>

theorem template_success_replaces_body_witness:
  \<open>Execute demo_lib
      (WithField ''{"model":"'' ''model'' ''","temperature":0.8,"max_tokens":100}'')
      (Some [(''model'', VString ''llama3''), (''messages'', VSlice [])])
     = Inr ''{"model":"llama3","temperature":0.8,"max_tokens":100}''
   \<and> Unmarshal demo_lib ''{"model":"llama3","temperature":0.8,"max_tokens":100}''
     = Inr (Some [(''model'', VString ''llama3''), (''temperature'', VFloat64 (8 / 10)),
                  (''max_tokens'', VFloat64 100)])
   \<and> wf_map (go_entries (Some [(''model'', VString ''llama3''),
                  (''temperature'', VFloat64 (8 / 10)), (''max_tokens'', VFloat64 100)]))
   \<and> (\<exists>d' applied lg.
          ExecuteTemplate demo_lib
            (WithField ''{"model":"'' ''model'' ''","temperature":0.8,"max_tokens":100}'')
            (Some [(''model'', VString ''llama3''), (''messages'', VSlice [])])
            (Some [(''model'', VString ''llama3''), (''messages'', VSlice [])])
          = Inr (True, Some d', [])
        \<and> map_of d' ''temperature'' = Some (VFloat64 (8 / 10))
        \<and> map_of d' ''messages'' = None
        \<and> processActions demo_lib
            (Some [(''model'', VString ''llama3''), (''messages'', VSlice [])]) [] []
            [\<lparr>When = None, Template = ''{"model":"{{ .model }}","temperature":0.8,"max_tokens":100}'', Merge = [],
              Default = [], Delete = [], Stop = False\<rparr>]
            [Some (WithField ''{"model":"'' ''model''
                     ''","temperature":0.8,"max_tokens":100}'')]
          = Inr (True, applied, Some d', lg)
        \<and> map_of applied ''max_tokens'' = Some (VFloat64 100)
        \<and> map_of applied ''template'' = None)\<close>
proof -
  let ?txt = \<open>''{"model":"llama3","temperature":0.8,"max_tokens":100}''\<close>
  let ?tmpl = \<open>WithField ''{"model":"'' ''model'' ''","temperature":0.8,"max_tokens":100}''\<close>
  let ?d = "[(''model'', VString ''llama3''), (''messages'', VSlice [])]"
  let ?r = "[(''model'', VString ''llama3''), (''temperature'', VFloat64 (8 / 10)),
             (''max_tokens'', VFloat64 100)]"
  let ?op = \<open>\<lparr>When = None, Template = ''{"model":"{{ .model }}","temperature":0.8,"max_tokens":100}'', Merge = [],
              Default = [], Delete = [], Stop = False\<rparr> :: demo_re ActionExec\<close>
  have ex: "Execute demo_lib ?tmpl (Some ?d) = Inr ?txt"
    by (simp add: demo_lib_def go_index_def go_entries_def)
  have um: "Unmarshal demo_lib ?txt = Inr (Some ?r)"
    by (simp add: demo_lib_def demo_Unmarshal_def demo_json_texts_def)
  have wf: "wf_map (go_entries (Some ?r))"
    by (simp add: wf_map_def go_entries_def)
  have op: "When ?op = None" "Template ?op \<noteq> []" "Default ?op = []" "Merge ?op = []"
    "Delete ?op = []"
    by simp_all
  from template_success_replaces_body [OF ex um wf] obtain d' where
    et: "ExecuteTemplate demo_lib ?tmpl (Some ?d) (Some ?d) = Inr (True, Some d', [])"
    and m: "map_of d' = map_of (go_entries (Some ?r))"
    and e2e: "\<forall>headers query op.
            When op = None \<longrightarrow> Template op \<noteq> [] \<longrightarrow>
            Default op = [] \<longrightarrow> Merge op = [] \<longrightarrow> Delete op = [] \<longrightarrow>
              (\<exists>applied lg.
                 processActions demo_lib (Some ?d) headers query [op] [Some ?tmpl] =
                   Inr (True, applied, Some d', lg)
                 \<and> map_of applied = map_of d')"
    by blast
  from e2e [THEN spec, THEN spec, THEN spec, THEN mp, THEN mp, THEN mp, THEN mp, THEN mp,
      OF op, of "[]" "[]"]
  obtain applied lg where
    pa: "processActions demo_lib (Some ?d) [] [] [?op] [Some ?tmpl]
           = Inr (True, applied, Some d', lg)"
    and ma: "map_of applied = map_of d'"
    by blast
  from m have "map_of d' ''temperature'' = Some (VFloat64 (8 / 10))"
    and "map_of d' ''messages'' = None"
    and "map_of d' ''max_tokens'' = Some (VFloat64 100)"
    and "map_of d' ''template'' = None"
    by (simp_all add: go_entries_def)
  with et pa ma have "ExecuteTemplate demo_lib ?tmpl (Some ?d) (Some ?d) = Inr (True, Some d', [])
      \<and> map_of d' ''temperature'' = Some (VFloat64 (8 / 10))
      \<and> map_of d' ''messages'' = None
      \<and> processActions demo_lib (Some ?d) [] [] [?op] [Some ?tmpl]
           = Inr (True, applied, Some d', lg)
      \<and> map_of applied ''max_tokens'' = Some (VFloat64 100)
      \<and> map_of applied ''template'' = None"
    by simp
  with ex um wf show ?thesis by blast
qed

lemma templateStep_failure:
  assumes "Template op \<noteq> []" and "i < length templates" and "templates ! i = Some tmpl"
    and "Execute L tmpl (pa_data st) = Inl e
         \<or> (\<exists>buf. Execute L tmpl (pa_data st) = Inr buf \<and> Unmarshal L buf = Inl e)"
  shows "\<exists>msg. templateStep L templates i op st ch =
           Inr (st\<lparr>pa_logs := pa_logs st @ [LogError msg]\<rparr>, ch)"
proof -
  from ExecuteTemplate_failure [OF assms(4), of "pa_data st"] obtain msg where
    "ExecuteTemplate L tmpl (pa_data st) (pa_data st) = Inr (False, pa_data st, [LogError msg])"
    by blast
  with assms(1-3) have "templateStep L templates i op st ch =
      Inr (st\<lparr>pa_logs := pa_logs st @ [LogError msg]\<rparr>, ch)"
    by (simp add: templateStep_def)
  then show ?thesis by blast
qed

text \<open>
  Claim C4. When the template fails to execute, or its text makes \<^verbatim>\<open>json.Unmarshal\<close>
  return an error, \<^verbatim>\<open>ExecuteTemplate\<close> logs one error, returns false and leaves the
  body as it was (lemma \<open>ExecuteTemplate_failure\<close>), and the pipeline goes on with the
  other steps of the action (lemma \<open>templateStep_failure\<close>). The
  text \<^verbatim>\<open>null\<close> is not a JSON object, but \<^verbatim>\<open>json.Unmarshal\<close> returns no error for
  it: the source then empties the body, returns true and logs nothing, and the pass
  reports a change. The theorem runs the source at that input.
\<close>

theorem template_null_output_empties_body:
  "ExecuteTemplate demo_lib (Literal ''null'')
       (Some [(''model'', VString ''llama3'')]) (Some [(''model'', VString ''llama3'')])
     = Inr (True, Some [], [])
   \<and> processActions demo_lib (Some [(''model'', VString ''llama3'')]) [] []
       [\<lparr>When = None, Template = ''null'', Merge = [], Default = [], Delete = [],
         Stop = False\<rparr>]
       [Some (Literal ''null'')]
     = Inr (True, [], Some [], [LogDebug ''Route applied request changes''])"
  by (simp add: ExecuteTemplate_def delete_all_Some assign_entries_Some demo_lib_def
      demo_Unmarshal_def go_entries_def copy_into_def processActions_def skipped_def
      runAction_def templateStep_def defaultStep_def mergeStep_def deleteStep_def)

section \<open>Properties of the template helpers\<close>

lemma TemplateFuncs_default_zero_values:
  "TemplateFuncs_default def VNil = def"
  "TemplateFuncs_default def (VString []) = def"
  "TemplateFuncs_default def (VFloat64 0) = def"
  "TemplateFuncs_default def (VBool False) = def"
  "s \<noteq> [] \<Longrightarrow> TemplateFuncs_default def (VString s) = VString s"
  "x \<noteq> 0 \<Longrightarrow> TemplateFuncs_default def (VFloat64 x) = VFloat64 x"
  "TemplateFuncs_default def (VBool True) = VBool True"
  "TemplateFuncs_default def (VInt n) = VInt n"
  "TemplateFuncs_default def (VSlice vs) = VSlice vs"
  "TemplateFuncs_default def (VMap m) = VMap m"
  by (simp_all add: TemplateFuncs_default_def)

text \<open>
  Claim C9. The helper returns the fallback for nil, the empty string, the
  \<^verbatim>\<open>float64\<close> zero and false, and the value for every other string, \<^verbatim>\<open>float64\<close> and
  bool (lemma \<open>TemplateFuncs_default_zero_values\<close>). Its type switch has no case for
  \<^verbatim>\<open>int\<close>: for the integer zero, which a template gets from a literal, from \<^verbatim>\<open>len\<close>
  or from a merged configuration value, it returns the zero and not the fallback.
\<close>

theorem TemplateFuncs_default_int_zero:
  "TemplateFuncs_default (VInt 10) (VInt 0) = VInt 0"
  by (simp add: TemplateFuncs_default_def)


section \<open>Properties of route matching and the response processor\<close>

lemma ProcessResponse_Some:
  assumes "\<forall>j < length (CompiledRoute.OnResponse c).
             Template (CompiledRoute.OnResponse c ! j) \<noteq> [] \<longrightarrow> j < length (OnResponseTemplates c)"
  shows "\<exists>m av d' lg. ProcessResponse L (Some d) headers query (Some c) = Inr (m, av, Some d', lg)"
  using processActions_Some [OF assms] by (simp add: ProcessResponse_def)

lemma stream_routes_Some:
  assumes "\<forall>r c. Some r \<in> set routes \<longrightarrow> Compiled r = Some c \<longrightarrow>
             (\<forall>j < length (CompiledRoute.OnResponse c).
                Template (CompiledRoute.OnResponse c ! j) \<noteq> [] \<longrightarrow>
                j < length (OnResponseTemplates c))"
  shows "\<exists>d' m' av' lg'. stream_routes L headers query routes (Some d, m, av, lg)
           = Inr (Some d', m', av', lg')"
  using assms
proof (induction routes arbitrary: d m av lg)
  case Nil
  then show ?case by simp
next
  case (Cons rule routes)
  have rest: "\<forall>r c. Some r \<in> set routes \<longrightarrow> Compiled r = Some c \<longrightarrow>
             (\<forall>j < length (CompiledRoute.OnResponse c).
                Template (CompiledRoute.OnResponse c ! j) \<noteq> [] \<longrightarrow>
                j < length (OnResponseTemplates c))"
    using Cons.prems by simp
  show ?case
  proof (cases rule)
    case None
    with Cons.IH [OF rest] show ?thesis by simp
  next
    case (Some r)
    show ?thesis
    proof (cases "OnResponse r = [] \<or> Compiled r = None")
      case True
      with Some Cons.IH [OF rest] show ?thesis by auto
    next
      case False
      then obtain c where c: "Compiled r = Some c" by auto
      with Some Cons.prems have
        "\<forall>j < length (CompiledRoute.OnResponse c).
           Template (CompiledRoute.OnResponse c ! j) \<noteq> [] \<longrightarrow> j < length (OnResponseTemplates c)"
        by simp
      from ProcessResponse_Some [OF this, of L d headers query] obtain m1 av1 d1 lg1 where
        "ProcessResponse L (Some d) headers query (Some c) = Inr (m1, av1, Some d1, lg1)"
        by blast
      with Some False c Cons.IH [OF rest] show ?thesis by simp
    qed
  qed
qed







section \<open>Properties of the streaming processor\<close>

lemma pipe_Write_open:
  "writes_left p = None \<Longrightarrow> pipe_Write bytes p = (True, p\<lparr>written := written p @ bytes\<rparr>)"
  by (simp add: pipe_Write_def)

lemma streamLine_blank:
  "writes_left p = None \<Longrightarrow>
     streamLine L routes headers query [] p = Inr (True, p\<lparr>written := written p @ newline\<rparr>, [])"
  by (simp add: streamLine_def pipe_Write_open)

lemma streamLine_done:
  "writes_left p = None \<Longrightarrow>
     streamLine L routes headers query ''data: [DONE]'' p =
       Inr (True, p\<lparr>written := written p @ ''data: [DONE]'' @ newline\<rparr>, [])"
  by (simp add: streamLine_def pipe_Write_open TrimPrefix_def)

lemma streamLine_not_JSON:
  assumes "writes_left p = None" and "line \<noteq> []"
    and "\<not> (HasPrefix line ''data: '' \<and> TrimPrefix line ''data: '' = ''[DONE]'')"
    and "Unmarshal L (if HasPrefix line ''data: '' then TrimPrefix line ''data: '' else line) = Inl e"
  shows "streamLine L routes headers query line p =
           Inr (True, p\<lparr>written := written p @ line @ newline\<rparr>, [])"
  using assms by (simp add: streamLine_def pipe_Write_open Let_def)

lemma streamLine_JSON:
  assumes "writes_left p = None" and "line \<noteq> []"
    and "\<not> (HasPrefix line ''data: '' \<and> TrimPrefix line ''data: '' = ''[DONE]'')"
    and "Unmarshal L (if HasPrefix line ''data: '' then TrimPrefix line ''data: '' else line) = Inr data"
    and "stream_routes L headers query routes (data, False, [], []) = Inr (data', m, av, lg)"
  shows "streamLine L routes headers query line p =
           (case Marshal L data' of
              Inl err \<Rightarrow>
                Inr (True, p\<lparr>written := written p @ line @ newline\<rparr>,
                     lg @ [LogError ''Failed to marshal modified streaming chunk''])
            | Inr js \<Rightarrow>
                Inr (True,
                     p\<lparr>written := written p
                          @ (if HasPrefix line ''data: '' then ''data: '' else []) @ js @ newline\<rparr>,
                     lg))"
  using assms by (simp add: streamLine_def pipe_Write_open Let_def split: sum.splits)

lemma streamLine_panic:
  assumes "line \<noteq> []"
    and "\<not> (HasPrefix line ''data: '' \<and> TrimPrefix line ''data: '' = ''[DONE]'')"
    and "Unmarshal L (if HasPrefix line ''data: '' then TrimPrefix line ''data: '' else line) = Inr data"
    and "stream_routes L headers query routes (data, False, [], []) = Inl pn"
  shows "streamLine L routes headers query line p = Inl pn"
  using assms by (auto simp: streamLine_def Let_def)

lemma streamLine_open:
  assumes "writes_left p = None"
  shows "streamLine L routes headers query line p =
     (case streamLine L routes headers query line \<lparr>written = [], writes_left = None\<rparr> of
        Inl pn \<Rightarrow> Inl pn
      | Inr (g, p1, l1) \<Rightarrow> Inr (True, p\<lparr>written := written p @ written p1\<rparr>, l1))"
proof (cases "line = []")
  case True
  with assms show ?thesis by (simp add: streamLine_blank)
next
  case ne: False
  let ?pl = "if HasPrefix line ''data: '' then TrimPrefix line ''data: '' else line"
  show ?thesis
  proof (cases "HasPrefix line ''data: '' \<and> TrimPrefix line ''data: '' = ''[DONE]''")
    case True
    with ne assms show ?thesis by (simp add: streamLine_def pipe_Write_open Let_def)
  next
    case nd: False
    show ?thesis
    proof (cases "Unmarshal L ?pl")
      case (Inl e)
      from streamLine_not_JSON [OF assms ne nd Inl] streamLine_not_JSON [OF _ ne nd Inl, of "\<lparr>written = [], writes_left = None\<rparr>"]
      show ?thesis by simp
    next
      case (Inr data)
      show ?thesis
      proof (cases "stream_routes L headers query routes (data, False, [], [])")
        case (Inl pn)
        from streamLine_panic [OF ne nd Inr Inl] show ?thesis by simp
      next
        case r: (Inr res)
        obtain data' m av lg where res: "res = (data', m, av, lg)" by (cases res)
        from streamLine_JSON [OF assms ne nd Inr r [unfolded res]]
          streamLine_JSON [OF _ ne nd Inr r [unfolded res], of "\<lparr>written = [], writes_left = None\<rparr>"]
        show ?thesis by (simp split: sum.splits)
      qed
    qed
  qed
qed

lemma HasPrefix_split: "HasPrefix s pre \<Longrightarrow> s = pre @ TrimPrefix s pre"
  by (induction s pre rule: HasPrefix.induct) (auto simp: TrimPrefix_def)

lemma DONE_iff:
  "(HasPrefix line ''data: '' \<and> TrimPrefix line ''data: '' = ''[DONE]'')
     \<longleftrightarrow> line = ''data: [DONE]''"
proof
  assume "HasPrefix line ''data: '' \<and> TrimPrefix line ''data: '' = ''[DONE]''"
  then have h: "HasPrefix line ''data: ''" and t: "TrimPrefix line ''data: '' = ''[DONE]''"
    by blast+
  from HasPrefix_split [OF h] show "line = ''data: [DONE]''" unfolding t by simp
next
  assume "line = ''data: [DONE]''"
  then show "HasPrefix line ''data: '' \<and> TrimPrefix line ''data: '' = ''[DONE]''"
    by (simp add: TrimPrefix_def)
qed

lemma streamLine_Inr:
  fixes L :: "('re, 'tmpl) lib"
  assumes al: "\<forall>r c. Some r \<in> set routes \<longrightarrow> Compiled r = Some c \<longrightarrow>
            (\<forall>j < length (CompiledRoute.OnResponse c).
               Template (CompiledRoute.OnResponse c ! j) \<noteq> [] \<longrightarrow>
               j < length (OnResponseTemplates c))"
    and ok: "line = [] \<or> line = ''data: [DONE]''
             \<or> Unmarshal L (if HasPrefix line ''data: '' then TrimPrefix line ''data: '' else line)
                   \<noteq> Inr None"
  shows "\<not> isl (streamLine L routes headers query line \<lparr>written = [], writes_left = None\<rparr>)"
proof -
  let ?e = "\<lparr>written = [], writes_left = None\<rparr>"
  let ?pl = "if HasPrefix line ''data: '' then TrimPrefix line ''data: '' else line"
  have op: "writes_left ?e = None" by simp
  show ?thesis
  proof (cases "line = []")
    case True
    with streamLine_blank [OF op, of L routes headers query] show ?thesis by simp
  next
    case ne: False
    show ?thesis
    proof (cases "line = ''data: [DONE]''")
      case True
      with streamLine_done [OF op, of L routes headers query] show ?thesis by simp
    next
      case False
      then have nd: "\<not> (HasPrefix line ''data: '' \<and> TrimPrefix line ''data: '' = ''[DONE]'')"
        by (simp only: DONE_iff not_False_eq_True)
      show ?thesis
      proof (cases "Unmarshal L ?pl")
        case (Inl e)
        from streamLine_not_JSON [OF op ne nd Inl, of routes headers query] show ?thesis by simp
      next
        case (Inr data)
        with ok ne False obtain obj where d: "data = Some obj" by (cases data) auto
        from stream_routes_Some [OF al, of L headers query obj False "[]" "[]"]
        obtain obj' m av lg where
          sr: "stream_routes L headers query routes (Some obj, False, [], [])
                 = Inr (Some obj', m, av, lg)" by blast
        from streamLine_JSON [OF op ne nd Inr [unfolded d] sr]
        show ?thesis by (cases "Marshal L (Some obj')") auto
      qed
    qed
  qed
qed

lemma streamLine_passes:
  assumes "line = [] \<or> line = ''data: [DONE]''
             \<or> isl (Unmarshal L (if HasPrefix line ''data: '' then TrimPrefix line ''data: ''
                                   else line))"
  shows "streamLine L routes headers query line \<lparr>written = [], writes_left = None\<rparr>
           = Inr (True, \<lparr>written = line @ newline, writes_left = None\<rparr>, [])"
proof -
  let ?e = "\<lparr>written = [], writes_left = None\<rparr>"
  have op: "writes_left ?e = None" by simp
  show ?thesis
  proof (cases "line = []")
    case True
    with streamLine_blank [OF op, of L routes headers query] show ?thesis by simp
  next
    case ne: False
    show ?thesis
    proof (cases "line = ''data: [DONE]''")
      case True
      with streamLine_done [OF op, of L routes headers query] show ?thesis by simp
    next
      case False
      then have nd: "\<not> (HasPrefix line ''data: '' \<and> TrimPrefix line ''data: '' = ''[DONE]'')"
        by (simp only: DONE_iff not_False_eq_True)
      from assms ne False obtain e where
        "Unmarshal L (if HasPrefix line ''data: '' then TrimPrefix line ''data: '' else line)
           = Inl e"
        by (auto simp: isl_def)
      from streamLine_not_JSON [OF op ne nd this, of routes headers query] show ?thesis by simp
    qed
  qed
qed

lemma streamLine_run:
  assumes op: "writes_left p = None"
    and np: "\<not> isl (streamLine L routes headers query line \<lparr>written = [], writes_left = None\<rparr>)"
  shows "streamLine L routes headers query line p =
           Inr (True, p\<lparr>written := written p @ lineBytes L routes headers query line\<rparr>,
                lineLogs L routes headers query line)"
proof -
  from np obtain g p1 l1 where
    "streamLine L routes headers query line \<lparr>written = [], writes_left = None\<rparr>
       = Inr (g, p1, l1)"
    by (cases "streamLine L routes headers query line \<lparr>written = [], writes_left = None\<rparr>")
       auto
  with streamLine_open [OF op, of L routes headers query line]
  show ?thesis by (simp add: lineBytes_def lineLogs_def)
qed

lemma streamLines_run:
  assumes op: "writes_left p = None"
    and np: "\<forall>line \<in> set ls.
        \<not> isl (streamLine L routes headers query line \<lparr>written = [], writes_left = None\<rparr>)"
  shows "streamLines L routes headers query ls p lg =
           Inr (True,
                p\<lparr>written := written p @ concat (map (lineBytes L routes headers query) ls)\<rparr>,
                lg @ concat (map (lineLogs L routes headers query) ls))"
  using op np
proof (induction ls arbitrary: p lg)
  case Nil
  then show ?case by simp
next
  case (Cons line ls)
  from Cons.prems(2) have np1:
    "\<not> isl (streamLine L routes headers query line \<lparr>written = [], writes_left = None\<rparr>)"
    by simp
  from Cons.prems(2) have npr: "\<forall>line \<in> set ls.
        \<not> isl (streamLine L routes headers query line \<lparr>written = [], writes_left = None\<rparr>)"
    by simp
  let ?p1 = "p\<lparr>written := written p @ lineBytes L routes headers query line\<rparr>"
  have op1: "writes_left ?p1 = None" using Cons.prems(1) by simp
  from streamLine_run [OF Cons.prems(1) np1]
  have "streamLines L routes headers query (line # ls) p lg =
          streamLines L routes headers query ls ?p1 (lg @ lineLogs L routes headers query line)"
    by simp
  also from Cons.IH [OF op1 npr]
  have "\<dots> = Inr (True,
                ?p1\<lparr>written := written ?p1 @ concat (map (lineBytes L routes headers query) ls)\<rparr>,
                (lg @ lineLogs L routes headers query line)
                   @ concat (map (lineLogs L routes headers query) ls))" .
  finally show ?case by simp
qed

lemma ModifyStreamingResponse_run:
  assumes sc: "Scan L (resp_Body resp) = (ls, serr)"
    and np: "\<forall>line \<in> set ls.
        \<not> isl (streamLine L routes (firstValues (resp_Header resp))
                   (extractQueryParams (req_URL_Query (resp_Request resp))) line
                   \<lparr>written = [], writes_left = None\<rparr>)"
  shows "ModifyStreamingResponse L None resp routes =
           Inr (resp\<lparr>resp_Body :=
                    (concat (map (lineBytes L routes (firstValues (resp_Header resp))
                                    (extractQueryParams (req_URL_Query (resp_Request resp)))) ls),
                     serr)\<rparr>,
                concat (map (lineLogs L routes (firstValues (resp_Header resp))
                               (extractQueryParams (req_URL_Query (resp_Request resp)))) ls)
                @ (if serr = None then [] else [LogError ''Streaming scanner error'']))"
proof -
  have op: "writes_left \<lparr>written = [], writes_left = None\<rparr> = None" by simp
  from streamLines_run [OF op np] sc
  show ?thesis by (simp add: ModifyStreamingResponse_def Let_def)
qed

lemma scan_lines_line:
  "CHR 0x0A \<notin> set l \<Longrightarrow>
     scan_lines (l @ CHR 0x0A # rest) cur = dropCR (cur @ l) # scan_lines rest []"
  by (induction l arbitrary: cur) auto

lemma scan_lines_last:
  "CHR 0x0A \<notin> set l \<Longrightarrow>
     scan_lines l cur = (if cur @ l = [] then [] else [dropCR (cur @ l)])"
  by (induction l arbitrary: cur) auto

lemma ScanLines_split:
  assumes "\<forall>l \<in> set ls. CHR 0x0A \<notin> set l" and "CHR 0x0A \<notin> set rest"
  shows "ScanLines (concat (map (\<lambda>l. l @ newline) ls) @ rest)
           = map dropCR (ls @ (if rest = [] then [] else [rest]))"
  using assms
proof (induction ls)
  case Nil
  then show ?case by (simp add: ScanLines_def scan_lines_last)
next
  case (Cons l ls)
  from Cons.prems have nl: "CHR 0x0A \<notin> set l" by simp
  from Cons have
    "ScanLines (concat (map (\<lambda>l. l @ newline) ls) @ rest)
       = map dropCR (ls @ (if rest = [] then [] else [rest]))" by simp
  with scan_lines_line [OF nl, of "concat (map (\<lambda>l. l @ newline) ls) @ rest" "[]"]
  show ?case by (simp add: ScanLines_def newline_def)
qed

lemma ModifyStreamingResponse_passes:
  assumes sc: "Scan L (resp_Body resp)
                 = (ScanLines (fst (resp_Body resp)), snd (resp_Body resp))"
    and body: "fst (resp_Body resp) = concat (map (\<lambda>l. l @ newline) ls) @ rest"
    and kinds: "\<forall>l \<in> set (ls @ (if rest = [] then [] else [rest])).
         CHR 0x0A \<notin> set l
         \<and> (dropCR l = [] \<or> dropCR l = ''data: [DONE]''
            \<or> isl (Unmarshal L (if HasPrefix (dropCR l) ''data: ''
                                 then TrimPrefix (dropCR l) ''data: '' else dropCR l)))"
  shows "ModifyStreamingResponse L None resp routes =
           Inr (resp\<lparr>resp_Body :=
                    (concat (map (\<lambda>l. dropCR l @ newline)
                               (ls @ (if rest = [] then [] else [rest]))),
                     snd (resp_Body resp))\<rparr>,
                if snd (resp_Body resp) = None then []
                else [LogError ''Streaming scanner error''])"
proof -
  let ?h = "firstValues (resp_Header resp)"
  let ?q = "extractQueryParams (req_URL_Query (resp_Request resp))"
  let ?all = "ls @ (if rest = [] then [] else [rest])"
  let ?e = "\<lparr>written = [], writes_left = None\<rparr>"
  from kinds have nl: "\<forall>l \<in> set ls. CHR 0x0A \<notin> set l" and nr: "CHR 0x0A \<notin> set rest"
    by (auto split: if_splits)
  from sc body ScanLines_split [OF nl nr]
  have sc': "Scan L (resp_Body resp) = (map dropCR ?all, snd (resp_Body resp))" by simp
  have one: "streamLine L routes ?h ?q (dropCR l) ?e
               = Inr (True, \<lparr>written = dropCR l @ newline, writes_left = None\<rparr>, [])"
    if "l \<in> set ?all" for l
    using kinds that by (intro streamLine_passes) blast
  then have np: "\<forall>line \<in> set (map dropCR ?all). \<not> isl (streamLine L routes ?h ?q line ?e)"
    by auto
  from one have b: "map (lineBytes L routes ?h ?q) (map dropCR ?all)
                      = map (\<lambda>l. dropCR l @ newline) ?all"
    by (simp add: lineBytes_def)
  from one have g: "concat (map (lineLogs L routes ?h ?q) (map dropCR ?all)) = []"
    by (simp add: lineLogs_def)
  from ModifyStreamingResponse_run [OF sc' np] show ?thesis
    unfolding b g by simp
qed

text \<open>
  Claim C5, as it is stated, fails on a line that ends in a carriage return and a line
  feed: the scanner splits with \<^verbatim>\<open>bufio.ScanLines\<close>, which drops the carriage return
  with the line feed, and the worker always ends what it writes with a bare line feed.
  The stream \<^verbatim>\<open>data: notjson\r\ndata: [DONE]\r\n\<close>, with no route, comes out as
  \<^verbatim>\<open>data: notjson\ndata: [DONE]\n\<close>: neither line is byte-identical to the input.
\<close>

theorem streaming_CRLF_lines_not_byte_identical:
  "ModifyStreamingResponse demo_lib None
       (demo_response [] ''text/event-stream''
          (''data: notjson'' @ [CHR 0x0D, CHR 0x0A] @ ''data: [DONE]'' @ [CHR 0x0D, CHR 0x0A]))
       []
     = Inr ((demo_response [] ''text/event-stream''
               (''data: notjson'' @ [CHR 0x0D, CHR 0x0A]
                  @ ''data: [DONE]'' @ [CHR 0x0D, CHR 0x0A]))
              \<lparr>resp_Body :=
                 (''data: notjson'' @ [CHR 0x0A] @ ''data: [DONE]'' @ [CHR 0x0A], None)\<rparr>,
            [])
   \<and> ''data: notjson'' @ [CHR 0x0A] @ ''data: [DONE]'' @ [CHR 0x0A]
       \<noteq> ''data: notjson'' @ [CHR 0x0D, CHR 0x0A] @ ''data: [DONE]'' @ [CHR 0x0D, CHR 0x0A]"
proof -
  let ?body = "''data: notjson'' @ [CHR 0x0D, CHR 0x0A] @ ''data: [DONE]'' @ [CHR 0x0D, CHR 0x0A]"
  let ?resp = "demo_response [] ''text/event-stream'' ?body"
  let ?e = "\<lparr>written = [], writes_left = None\<rparr>"
  have sc: "Scan demo_lib (resp_Body ?resp) = ([''data: notjson'', ''data: [DONE]''], None)"
    by code_simp
  have l1: "streamLine demo_lib [] (firstValues (resp_Header ?resp))
              (extractQueryParams (req_URL_Query (resp_Request ?resp))) ''data: notjson'' ?e
            = Inr (True, \<lparr>written = ''data: notjson'' @ newline, writes_left = None\<rparr>, [])"
    by (rule streamLine_passes) code_simp
  have l2: "streamLine demo_lib [] (firstValues (resp_Header ?resp))
              (extractQueryParams (req_URL_Query (resp_Request ?resp))) ''data: [DONE]'' ?e
            = Inr (True, \<lparr>written = ''data: [DONE]'' @ newline, writes_left = None\<rparr>, [])"
    by (rule streamLine_passes) simp
  from l1 l2 have np: "\<forall>line \<in> set [''data: notjson'', ''data: [DONE]''].
      \<not> isl (streamLine demo_lib [] (firstValues (resp_Header ?resp))
                 (extractQueryParams (req_URL_Query (resp_Request ?resp))) line ?e)"
    by simp
  from ModifyStreamingResponse_run [OF sc np] l1 l2
  have "ModifyStreamingResponse demo_lib None ?resp []
     = Inr (?resp\<lparr>resp_Body :=
                 (''data: notjson'' @ [CHR 0x0A] @ ''data: [DONE]'' @ [CHR 0x0A], None)\<rparr>, [])"
    by (simp add: lineBytes_def lineLogs_def newline_def)
  then show ?thesis by simp
qed

text \<open>
  Claim C5, amended. While the reader of the new body stays open, the worker writes for
  each line that the scanner yields (the bytes up to a line feed, less one carriage
  return before it), in the order of arrival: for a blank line a bare line feed; for the
  line \<^verbatim>\<open>data: [DONE]\<close>, and for a line whose payload \<^verbatim>\<open>json.Unmarshal\<close> rejects, the
  line itself and a line feed; for a line whose payload parses as a JSON object, given
  compiled routes whose templates are aligned with their actions, the pipeline runs
  without a panic and the worker writes the object it leaves, serialized, after
  \<^verbatim>\<open>data: \<close> exactly when the line began with \<^verbatim>\<open>data: \<close>, and one line feed (should
  serializing fail, it writes the line itself and a line feed).

  The loop handles every line: for lines none of which parses to the nil map, it runs to
  its end, and the bytes written are the bytes for each line, concatenated in order; the
  new body of the response is these bytes for the lines of the scanner.

  With the lines of \<^verbatim>\<open>bufio.ScanLines\<close>: a body of lines that are blank, the sentinel or
  rejected by \<^verbatim>\<open>json.Unmarshal\<close> comes out with every line ended by a bare line feed and
  otherwise as it came, whatever the routes; so it comes out byte-identical when each of
  its lines ends in a line feed with no carriage return before it.
\<close>

theorem streaming_lines_pass_through_or_reserialize:
  fixes L :: "('re, 'tmpl) lib"
  assumes op: "writes_left p = None"
  shows
  "streamLine L routes headers query [] p = Inr (True, p\<lparr>written := written p @ newline\<rparr>, [])
   \<and> streamLine L routes headers query ''data: [DONE]'' p =
       Inr (True, p\<lparr>written := written p @ ''data: [DONE]'' @ newline\<rparr>, [])
   \<and> (\<forall>line e.
         line \<noteq> [] \<longrightarrow>
         \<not> (HasPrefix line ''data: '' \<and> TrimPrefix line ''data: '' = ''[DONE]'') \<longrightarrow>
         Unmarshal L (if HasPrefix line ''data: '' then TrimPrefix line ''data: '' else line)
           = Inl e \<longrightarrow>
           streamLine L routes headers query line p =
             Inr (True, p\<lparr>written := written p @ line @ newline\<rparr>, []))
   \<and> (\<forall>line obj.
         line \<noteq> [] \<longrightarrow>
         \<not> (HasPrefix line ''data: '' \<and> TrimPrefix line ''data: '' = ''[DONE]'') \<longrightarrow>
         Unmarshal L (if HasPrefix line ''data: '' then TrimPrefix line ''data: '' else line)
           = Inr (Some obj) \<longrightarrow>
         (\<forall>r c. Some r \<in> set routes \<longrightarrow> Compiled r = Some c \<longrightarrow>
            (\<forall>j < length (CompiledRoute.OnResponse c).
               Template (CompiledRoute.OnResponse c ! j) \<noteq> [] \<longrightarrow>
               j < length (OnResponseTemplates c))) \<longrightarrow>
           (\<exists>obj' m av lg.
              stream_routes L headers query routes (Some obj, False, [], [])
                = Inr (Some obj', m, av, lg)
              \<and> streamLine L routes headers query line p =
                  (case Marshal L (Some obj') of
                     Inl err \<Rightarrow>
                       Inr (True, p\<lparr>written := written p @ line @ newline\<rparr>,
                            lg @ [LogError ''Failed to marshal modified streaming chunk''])
                   | Inr js \<Rightarrow>
                       Inr (True,
                            p\<lparr>written := written p
                                 @ (if HasPrefix line ''data: '' then ''data: '' else [])
                                 @ js @ newline\<rparr>,
                            lg))))
   \<and> (\<forall>ls lg.
         (\<forall>r c. Some r \<in> set routes \<longrightarrow> Compiled r = Some c \<longrightarrow>
            (\<forall>j < length (CompiledRoute.OnResponse c).
               Template (CompiledRoute.OnResponse c ! j) \<noteq> [] \<longrightarrow>
               j < length (OnResponseTemplates c))) \<longrightarrow>
         (\<forall>line \<in> set ls.
            line = [] \<or> line = ''data: [DONE]''
            \<or> Unmarshal L (if HasPrefix line ''data: '' then TrimPrefix line ''data: ''
                            else line) \<noteq> Inr None) \<longrightarrow>
           streamLines L routes headers query ls p lg =
             Inr (True,
                  p\<lparr>written :=
                      written p @ concat (map (lineBytes L routes headers query) ls)\<rparr>,
                  lg @ concat (map (lineLogs L routes headers query) ls)))
   \<and> (\<forall>resp ls serr.
         Scan L (resp_Body resp) = (ls, serr) \<longrightarrow>
         (\<forall>r c. Some r \<in> set routes \<longrightarrow> Compiled r = Some c \<longrightarrow>
            (\<forall>j < length (CompiledRoute.OnResponse c).
               Template (CompiledRoute.OnResponse c ! j) \<noteq> [] \<longrightarrow>
               j < length (OnResponseTemplates c))) \<longrightarrow>
         (\<forall>line \<in> set ls.
            line = [] \<or> line = ''data: [DONE]''
            \<or> Unmarshal L (if HasPrefix line ''data: '' then TrimPrefix line ''data: ''
                            else line) \<noteq> Inr None) \<longrightarrow>
           ModifyStreamingResponse L None resp routes =
             Inr (resp\<lparr>resp_Body :=
                    (concat (map (lineBytes L routes (firstValues (resp_Header resp))
                                    (extractQueryParams (req_URL_Query (resp_Request resp))))
                               ls),
                     serr)\<rparr>,
                  concat (map (lineLogs L routes (firstValues (resp_Header resp))
                                 (extractQueryParams (req_URL_Query (resp_Request resp)))) ls)
                  @ (if serr = None then [] else [LogError ''Streaming scanner error''])))
   \<and> (\<forall>resp ls rest.
         Scan L (resp_Body resp)
           = (ScanLines (fst (resp_Body resp)), snd (resp_Body resp)) \<longrightarrow>
         fst (resp_Body resp) = concat (map (\<lambda>l. l @ newline) ls) @ rest \<longrightarrow>
         (\<forall>l \<in> set (ls @ (if rest = [] then [] else [rest])).
            CHR 0x0A \<notin> set l
            \<and> (dropCR l = [] \<or> dropCR l = ''data: [DONE]''
               \<or> isl (Unmarshal L (if HasPrefix (dropCR l) ''data: ''
                                    then TrimPrefix (dropCR l) ''data: '' else dropCR l)))) \<longrightarrow>
           ModifyStreamingResponse L None resp routes =
             Inr (resp\<lparr>resp_Body :=
                    (concat (map (\<lambda>l. dropCR l @ newline)
                               (ls @ (if rest = [] then [] else [rest]))),
                     snd (resp_Body resp))\<rparr>,
                  if snd (resp_Body resp) = None then []
                  else [LogError ''Streaming scanner error'']))"
proof (intro conjI allI impI)
  show "streamLine L routes headers query [] p =
          Inr (True, p\<lparr>written := written p @ newline\<rparr>, [])"
    by (rule streamLine_blank [OF op])
  show "streamLine L routes headers query ''data: [DONE]'' p =
       Inr (True, p\<lparr>written := written p @ ''data: [DONE]'' @ newline\<rparr>, [])"
    by (rule streamLine_done [OF op])
next
  fix line e
  assume "line \<noteq> []"
    and "\<not> (HasPrefix line ''data: '' \<and> TrimPrefix line ''data: '' = ''[DONE]'')"
    and "Unmarshal L (if HasPrefix line ''data: '' then TrimPrefix line ''data: '' else line)
           = Inl e"
  then show "streamLine L routes headers query line p =
             Inr (True, p\<lparr>written := written p @ line @ newline\<rparr>, [])"
    by (rule streamLine_not_JSON [OF op])
next
  fix line obj
  assume ne: "line \<noteq> []"
    and nd: "\<not> (HasPrefix line ''data: '' \<and> TrimPrefix line ''data: '' = ''[DONE]'')"
    and um: "Unmarshal L (if HasPrefix line ''data: '' then TrimPrefix line ''data: '' else line)
           = Inr (Some obj)"
    and al: "\<forall>r c. Some r \<in> set routes \<longrightarrow> Compiled r = Some c \<longrightarrow>
            (\<forall>j < length (CompiledRoute.OnResponse c).
               Template (CompiledRoute.OnResponse c ! j) \<noteq> [] \<longrightarrow>
               j < length (OnResponseTemplates c))"
  from stream_routes_Some [OF al, of L headers query obj False "[]" "[]"]
  obtain obj' m av lg where
    sr: "stream_routes L headers query routes (Some obj, False, [], [])
           = Inr (Some obj', m, av, lg)"
    by blast
  from streamLine_JSON [OF op ne nd um sr] sr
  show "\<exists>obj' m av lg.
              stream_routes L headers query routes (Some obj, False, [], [])
                = Inr (Some obj', m, av, lg)
              \<and> streamLine L routes headers query line p =
                  (case Marshal L (Some obj') of
                     Inl err \<Rightarrow>
                       Inr (True, p\<lparr>written := written p @ line @ newline\<rparr>,
                            lg @ [LogError ''Failed to marshal modified streaming chunk''])
                   | Inr js \<Rightarrow>
                       Inr (True,
                            p\<lparr>written := written p
                                 @ (if HasPrefix line ''data: '' then ''data: '' else [])
                                 @ js @ newline\<rparr>,
                            lg))"
    by blast
next
  fix ls lg
  assume al: "\<forall>r c. Some r \<in> set routes \<longrightarrow> Compiled r = Some c \<longrightarrow>
            (\<forall>j < length (CompiledRoute.OnResponse c).
               Template (CompiledRoute.OnResponse c ! j) \<noteq> [] \<longrightarrow>
               j < length (OnResponseTemplates c))"
    and ok: "\<forall>line \<in> set ls.
            line = [] \<or> line = ''data: [DONE]''
            \<or> Unmarshal L (if HasPrefix line ''data: '' then TrimPrefix line ''data: ''
                            else line) \<noteq> Inr None"
  have "\<forall>line \<in> set ls.
          \<not> isl (streamLine L routes headers query line \<lparr>written = [], writes_left = None\<rparr>)"
  proof
    fix line assume "line \<in> set ls"
    with ok have "line = [] \<or> line = ''data: [DONE]''
            \<or> Unmarshal L (if HasPrefix line ''data: '' then TrimPrefix line ''data: ''
                            else line) \<noteq> Inr None" by blast
    from streamLine_Inr [OF al this]
    show "\<not> isl (streamLine L routes headers query line \<lparr>written = [], writes_left = None\<rparr>)" .
  qed
  from streamLines_run [OF op this]
  show "streamLines L routes headers query ls p lg =
             Inr (True,
                  p\<lparr>written :=
                      written p @ concat (map (lineBytes L routes headers query) ls)\<rparr>,
                  lg @ concat (map (lineLogs L routes headers query) ls))" .
next
  fix resp :: "('re, 'tmpl) response" and ls serr
  let ?h = "firstValues (resp_Header resp)"
  let ?q = "extractQueryParams (req_URL_Query (resp_Request resp))"
  assume sc: "Scan L (resp_Body resp) = (ls, serr)"
    and al: "\<forall>r c. Some r \<in> set routes \<longrightarrow> Compiled r = Some c \<longrightarrow>
            (\<forall>j < length (CompiledRoute.OnResponse c).
               Template (CompiledRoute.OnResponse c ! j) \<noteq> [] \<longrightarrow>
               j < length (OnResponseTemplates c))"
    and ok: "\<forall>line \<in> set ls.
            line = [] \<or> line = ''data: [DONE]''
            \<or> Unmarshal L (if HasPrefix line ''data: '' then TrimPrefix line ''data: ''
                            else line) \<noteq> Inr None"
  have "\<forall>line \<in> set ls.
          \<not> isl (streamLine L routes ?h ?q line \<lparr>written = [], writes_left = None\<rparr>)"
  proof
    fix line assume "line \<in> set ls"
    with ok have "line = [] \<or> line = ''data: [DONE]''
            \<or> Unmarshal L (if HasPrefix line ''data: '' then TrimPrefix line ''data: ''
                            else line) \<noteq> Inr None" by blast
    from streamLine_Inr [OF al this]
    show "\<not> isl (streamLine L routes ?h ?q line \<lparr>written = [], writes_left = None\<rparr>)" .
  qed
  from ModifyStreamingResponse_run [OF sc this]
  show "ModifyStreamingResponse L None resp routes =
             Inr (resp\<lparr>resp_Body :=
                    (concat (map (lineBytes L routes (firstValues (resp_Header resp))
                                    (extractQueryParams (req_URL_Query (resp_Request resp))))
                               ls),
                     serr)\<rparr>,
                  concat (map (lineLogs L routes (firstValues (resp_Header resp))
                                 (extractQueryParams (req_URL_Query (resp_Request resp)))) ls)
                  @ (if serr = None then [] else [LogError ''Streaming scanner error'']))" .
next
  fix resp :: "('re, 'tmpl) response" and ls rest
  assume "Scan L (resp_Body resp)
           = (ScanLines (fst (resp_Body resp)), snd (resp_Body resp))"
    and "fst (resp_Body resp) = concat (map (\<lambda>l. l @ newline) ls) @ rest"
    and "\<forall>l \<in> set (ls @ (if rest = [] then [] else [rest])).
            CHR 0x0A \<notin> set l
            \<and> (dropCR l = [] \<or> dropCR l = ''data: [DONE]''
               \<or> isl (Unmarshal L (if HasPrefix (dropCR l) ''data: ''
                                    then TrimPrefix (dropCR l) ''data: '' else dropCR l)))"
  then show "ModifyStreamingResponse L None resp routes =
             Inr (resp\<lparr>resp_Body :=
                    (concat (map (\<lambda>l. dropCR l @ newline)
                               (ls @ (if rest = [] then [] else [rest]))),
                     snd (resp_Body resp))\<rparr>,
                  if snd (resp_Body resp) = None then []
                  else [LogError ''Streaming scanner error''])"
    by (rule ModifyStreamingResponse_passes)
qed

text \<open>
  The theorem with a route that merges \<^verbatim>\<open>transformed: true\<close> when the body has a
  \<^verbatim>\<open>role\<close>: at the line of the repository's test and at a line that is not JSON; at
  a stream of an object line, a blank line, a bare object line ended by a carriage return
  and a line feed, and a sentinel that no line feed ends; and at the stream of the
  repository's pass-through test, which comes out as it went in.
\<close>

theorem streaming_lines_pass_through_or_reserialize_witness:
  \<open>writes_left \<lparr>written = [], writes_left = None\<rparr> = None
   \<and> Unmarshal demo_lib ''{"role":"assistant","content":"Hello"}''
       = Inr (Some [(''role'', VString ''assistant''), (''content'', VString ''Hello'')])
   \<and> streamLine demo_lib [Some demo_transform] [] []
         ''data: {"role":"assistant","content":"Hello"}'' \<lparr>written = [], writes_left = None\<rparr>
       = Inr (True,
              \<lparr>written = ''data: {"content":"Hello","role":"assistant","transformed":true}''
                           @ newline,
               writes_left = None\<rparr>,
              [LogDebug ''Route applied request changes''])
   \<and> Unmarshal demo_lib ''notjson'' = Inl ''invalid character''
   \<and> streamLine demo_lib [Some demo_transform] [] []
         ''data: notjson'' \<lparr>written = [], writes_left = None\<rparr>
       = Inr (True, \<lparr>written = ''data: notjson'' @ newline, writes_left = None\<rparr>, [])
   \<and> Scan demo_lib
       (resp_Body (demo_response [demo_transform] ''text/event-stream''
          (''data: {"role":"assistant","content":"Hello"}'' @ newline @ newline
             @ ''{"a":true}'' @ [CHR 0x0D] @ newline @ ''data: [DONE]'')))
     = ([''data: {"role":"assistant","content":"Hello"}'', [], ''{"a":true}'', ''data: [DONE]''],
        None)
   \<and> ModifyStreamingResponse demo_lib None
         (demo_response [demo_transform] ''text/event-stream''
            (''data: {"role":"assistant","content":"Hello"}'' @ newline @ newline
               @ ''{"a":true}'' @ [CHR 0x0D] @ newline @ ''data: [DONE]''))
         [Some demo_transform]
       = Inr ((demo_response [demo_transform] ''text/event-stream''
                 (''data: {"role":"assistant","content":"Hello"}'' @ newline @ newline
                    @ ''{"a":true}'' @ [CHR 0x0D] @ newline @ ''data: [DONE]''))
                \<lparr>resp_Body :=
                   (''data: {"content":"Hello","role":"assistant","transformed":true}''
                      @ newline @ newline @ ''{"a":true}'' @ newline
                      @ ''data: [DONE]'' @ newline,
                    None)\<rparr>,
              [LogDebug ''Route applied request changes''])
   \<and> ModifyStreamingResponse demo_lib None
         (demo_response [demo_transform] ''text/event-stream''
            (''event: ping'' @ newline @ ''data: keep-alive'' @ newline @ newline
               @ '': comment line'' @ newline))
         [Some demo_transform]
       = Inr (demo_response [demo_transform] ''text/event-stream''
                (''event: ping'' @ newline @ ''data: keep-alive'' @ newline @ newline
                   @ '': comment line'' @ newline),
              [])\<close>
proof -
  let ?line = \<open>''data: {"role":"assistant","content":"Hello"}''\<close>
  let ?p = "\<lparr>written = [], writes_left = None\<rparr>"
  let ?obj = "[(''role'', VString ''assistant''), (''content'', VString ''Hello'')]"
  let ?obj' = "[(''role'', VString ''assistant''), (''content'', VString ''Hello''),
                (''transformed'', VBool True)]"
  let ?routes = "[Some demo_transform]"
  have op: "writes_left ?p = None" by simp
  have ne: "?line \<noteq> []" by simp
  have nd: "\<not> (HasPrefix ?line ''data: '' \<and> TrimPrefix ?line ''data: '' = ''[DONE]'')"
    by code_simp
  have pre: "HasPrefix ?line ''data: ''"
    by code_simp
  have um: "Unmarshal demo_lib (if HasPrefix ?line ''data: '' then TrimPrefix ?line ''data: ''
              else ?line) = Inr (Some ?obj)"
    by code_simp
  have um': \<open>Unmarshal demo_lib ''{"role":"assistant","content":"Hello"}'' = Inr (Some ?obj)\<close>
    by code_simp
  have al: "\<forall>r c. Some r \<in> set ?routes \<longrightarrow> Compiled r = Some c \<longrightarrow>
            (\<forall>j < length (CompiledRoute.OnResponse c).
               Template (CompiledRoute.OnResponse c ! j) \<noteq> [] \<longrightarrow>
               j < length (OnResponseTemplates c))"
    by (simp add: demo_transform_def demo_route_def)
  have sr: "stream_routes demo_lib [] [] ?routes (Some ?obj, False, [], [])
      = Inr (Some ?obj', True, [(''transformed'', VBool True)],
             [LogDebug ''Route applied request changes''])"
    by code_simp
  have ma: \<open>Marshal demo_lib (Some ?obj')
      = Inr ''{"content":"Hello","role":"assistant","transformed":true}''\<close>
    by code_simp
  from streaming_lines_pass_through_or_reserialize [OF op, of demo_lib ?routes "[]" "[]",
      THEN conjunct2, THEN conjunct2, THEN conjunct2, THEN conjunct1,
      THEN spec, THEN spec, THEN mp, THEN mp, THEN mp, THEN mp, OF ne nd um al]
  obtain obj' m av lg where
    sr': "stream_routes demo_lib [] [] ?routes (Some ?obj, False, [], []) = Inr (Some obj', m, av, lg)"
    and sl: "streamLine demo_lib ?routes [] [] ?line ?p =
      (case Marshal demo_lib (Some obj') of
         Inl err \<Rightarrow>
           Inr (True, ?p\<lparr>written := written ?p @ ?line @ newline\<rparr>,
                lg @ [LogError ''Failed to marshal modified streaming chunk''])
       | Inr js \<Rightarrow>
           Inr (True,
                ?p\<lparr>written := written ?p
                     @ (if HasPrefix ?line ''data: '' then ''data: '' else [])
                     @ js @ newline\<rparr>,
                lg))"
    by blast
  from trans [OF sr' [symmetric] sr]
  have "obj' = ?obj'" and "lg = [LogDebug ''Route applied request changes'']"
    by simp_all
  with sl ma pre have o1: \<open>streamLine demo_lib ?routes [] [] ?line ?p
       = Inr (True,
              \<lparr>written = ''data: {"content":"Hello","role":"assistant","transformed":true}''
                           @ newline,
               writes_left = None\<rparr>,
              [LogDebug ''Route applied request changes''])\<close>
    by simp
  have ne2: "''data: notjson'' \<noteq> []" by simp
  have nd2: "\<not> (HasPrefix ''data: notjson'' ''data: ''
                \<and> TrimPrefix ''data: notjson'' ''data: '' = ''[DONE]'')"
    by code_simp
  have um2: "Unmarshal demo_lib (if HasPrefix ''data: notjson'' ''data: ''
               then TrimPrefix ''data: notjson'' ''data: '' else ''data: notjson'')
             = Inl ''invalid character''"
    by code_simp
  have um2': "Unmarshal demo_lib ''notjson'' = Inl ''invalid character''"
    by code_simp
  from streaming_lines_pass_through_or_reserialize [OF op, of demo_lib ?routes "[]" "[]",
      THEN conjunct2, THEN conjunct2, THEN conjunct1,
      THEN spec, THEN spec, THEN mp, THEN mp, THEN mp, OF ne2 nd2 um2]
  have o2: "streamLine demo_lib ?routes [] [] ''data: notjson'' ?p
       = Inr (True, \<lparr>written = ''data: notjson'' @ newline, writes_left = None\<rparr>, [])"
    by simp
  let ?b1 = \<open>''data: {"role":"assistant","content":"Hello"}'' @ newline @ newline
             @ ''{"a":true}'' @ [CHR 0x0D] @ newline @ ''data: [DONE]''\<close>
  let ?r1 = "demo_response [demo_transform] ''text/event-stream'' ?b1"
  let ?ls1 = \<open>[''data: {"role":"assistant","content":"Hello"}'', [], ''{"a":true}'',
               ''data: [DONE]'']\<close>
  have sc1: "Scan demo_lib (resp_Body ?r1) = (?ls1, None)"
    by code_simp
  have ok1: "\<forall>line \<in> set ?ls1.
            line = [] \<or> line = ''data: [DONE]''
            \<or> Unmarshal demo_lib (if HasPrefix line ''data: '' then TrimPrefix line ''data: ''
                            else line) \<noteq> Inr None"
    by code_simp
  have by1: \<open>concat (map (lineBytes demo_lib ?routes (firstValues (resp_Header ?r1))
                            (extractQueryParams (req_URL_Query (resp_Request ?r1)))) ?ls1)
             = ''data: {"content":"Hello","role":"assistant","transformed":true}''
                      @ newline @ newline @ ''{"a":true}'' @ newline
                      @ ''data: [DONE]'' @ newline\<close>
    by code_simp
  have lg1: "concat (map (lineLogs demo_lib ?routes (firstValues (resp_Header ?r1))
                            (extractQueryParams (req_URL_Query (resp_Request ?r1)))) ?ls1)
               @ (if (None :: error option) = None then []
                  else [LogError ''Streaming scanner error''])
             = [LogDebug ''Route applied request changes'']"
    by code_simp
  note whole = streaming_lines_pass_through_or_reserialize [OF op, of demo_lib ?routes "[]" "[]",
      THEN conjunct2, THEN conjunct2, THEN conjunct2, THEN conjunct2, THEN conjunct2,
      THEN conjunct1, THEN spec, THEN spec, THEN spec, THEN mp, THEN mp, THEN mp,
      OF sc1 al ok1]
  have w1: \<open>ModifyStreamingResponse demo_lib None ?r1 ?routes
       = Inr (?r1\<lparr>resp_Body :=
                   (''data: {"content":"Hello","role":"assistant","transformed":true}''
                      @ newline @ newline @ ''{"a":true}'' @ newline
                      @ ''data: [DONE]'' @ newline,
                    None)\<rparr>,
              [LogDebug ''Route applied request changes''])\<close>
    using whole unfolding by1 lg1 .
  let ?ls2 = "[''event: ping'', ''data: keep-alive'', [], '': comment line'']"
  let ?b2 = "''event: ping'' @ newline @ ''data: keep-alive'' @ newline @ newline
               @ '': comment line'' @ newline"
  let ?r2 = "demo_response [demo_transform] ''text/event-stream'' ?b2"
  have sc2: "Scan demo_lib (resp_Body ?r2)
               = (ScanLines (fst (resp_Body ?r2)), snd (resp_Body ?r2))"
    by (simp add: demo_lib_def case_prod_beta)
  have b2: "fst (resp_Body ?r2) = concat (map (\<lambda>l. l @ newline) ?ls2) @ []"
    by (simp add: demo_response_def)
  have k2: "\<forall>l \<in> set (?ls2 @ (if ([] :: string) = [] then [] else [[]])).
            CHR 0x0A \<notin> set l
            \<and> (dropCR l = [] \<or> dropCR l = ''data: [DONE]''
               \<or> isl (Unmarshal demo_lib (if HasPrefix (dropCR l) ''data: ''
                                    then TrimPrefix (dropCR l) ''data: '' else dropCR l)))"
    by code_simp
  have out2: "concat (map (\<lambda>l. dropCR l @ newline)
                 (?ls2 @ (if ([] :: string) = [] then [] else [[]]))) = ?b2"
    by code_simp
  have e2: "snd (resp_Body ?r2) = None"
    by (simp add: demo_response_def)
  have same: "?r2\<lparr>resp_Body := (?b2, None)\<rparr> = ?r2"
    by (simp add: demo_response_def)
  note passes = streaming_lines_pass_through_or_reserialize [OF op, of demo_lib ?routes "[]" "[]",
      THEN conjunct2, THEN conjunct2, THEN conjunct2, THEN conjunct2, THEN conjunct2,
      THEN conjunct2, THEN spec, THEN spec, THEN spec, THEN mp, THEN mp, THEN mp,
      OF sc2 b2 k2]
  have w2: "ModifyStreamingResponse demo_lib None ?r2 ?routes = Inr (?r2, [])"
    using passes unfolding out2 e2 same by simp
  from op um' o1 um2' o2 sc1 w1 w2 show ?thesis by (intro conjI)
qed





section \<open>The JSON literal null as a body\<close>

text \<open>
  Claim C6. \<^verbatim>\<open>json.Unmarshal\<close> accepts the text \<^verbatim>\<open>null\<close> and leaves the map nil. The
  processors take that as a parsed body and run the pipeline on the nil map, where the
  first assignment panics. The theorem runs the request processor, the response
  processor and the streaming worker on such a body with a route that merges a key,
  and the pipeline on a nil map with a default action and with a template action: each
  run ends in the panic \<open>NilMapAssignment\<close>. On a body that is a JSON object the
  pipeline does not panic when the templates are aligned with the actions (lemma
  \<open>processActions_Some\<close>).
\<close>

theorem null_body_panics:
  "ModifyRequest demo_lib False (demo_request ''null'') [demo_both] = Inl NilMapAssignment
   \<and> ModifyResponse demo_lib None (demo_response [demo_both] ''application/json'' ''null'')
       = Inl NilMapAssignment
   \<and> ModifyStreamingResponse demo_lib None
         (demo_response [demo_both] ''text/event-stream'' (''data: null'' @ newline))
         [Some demo_both]
       = Inl NilMapAssignment
   \<and> processActions demo_lib None [] []
         [\<lparr>When = None, Template = [], Merge = [], Default = [(''max_tokens'', VInt 1000)],
           Delete = [], Stop = False\<rparr>] [None :: demo_tmpl option]
       = Inl NilMapAssignment
   \<and> processActions demo_lib None [] []
         [\<lparr>When = None, Template = ''{\"original\":true}'', Merge = [], Default = [],
           Delete = [], Stop = False\<rparr>] [Some (Literal ''{\"original\":true}'')]
       = Inl NilMapAssignment"
proof (intro conjI)
  have m: "MatchRoutes demo_lib (demo_request ''null'') [demo_both] = ([Some demo_both], [0])"
    by code_simp
  have u: "Unmarshal demo_lib ''null'' = Inr None"
    by code_simp
  have pr: "ProcessRequest demo_lib None
              (firstValues (req_Header (demo_request ''null'')))
              (extractQueryParams (req_URL_Query (demo_request ''null'')))
              (Compiled demo_both) = Inl NilMapAssignment"
    by code_simp
  have o: "OnRequest demo_both \<noteq> []"
    by (simp add: demo_both_def demo_route_def)
  have b: "req_Body (demo_request ''null'') = Some (''null'', None)"
    by (simp add: demo_request_def)
  show "ModifyRequest demo_lib False (demo_request ''null'') [demo_both] = Inl NilMapAssignment"
    by (simp add: ModifyRequest_def b u m pr o Let_def)
next
  let ?resp = "demo_response [demo_both] ''application/json'' ''null''"
  have ct: "Header_Get (resp_Header ?resp) ''Content-Type'' = ''application/json''"
    by code_simp
  have c1: "\<not> Contains ''application/json'' ''text/event-stream''"
    and c2: "Contains ''application/json'' ''application/json''"
    by code_simp+
  have mr: "fst (contextRoutes (req_Context (resp_Request ?resp))) = [Some demo_both]"
    by code_simp
  have b: "resp_Body ?resp = (''null'', None)"
    by (simp add: demo_response_def)
  have h: "hasResponseOps [Some demo_both] = Inr True"
    by code_simp
  have u: "Unmarshal demo_lib ''null'' = Inr None"
    by code_simp
  have l: "ModifyResponse_loop demo_lib
             (firstValues (resp_Header ?resp))
             (extractQueryParams (req_URL_Query (resp_Request ?resp)))
             [Some demo_both] (None, False, [], []) = Inl NilMapAssignment"
    by code_simp
  show "ModifyResponse demo_lib None ?resp = Inl NilMapAssignment"
    by (simp add: ModifyResponse_def ct c1 c2 mr b h u l Let_def
        del: ModifyResponse_loop.simps hasResponseOps.simps)
next
  show "ModifyStreamingResponse demo_lib None
         (demo_response [demo_both] ''text/event-stream'' (''data: null'' @ newline))
         [Some demo_both]
       = Inl NilMapAssignment"
    by code_simp
  show "processActions demo_lib None [] []
         [\<lparr>When = None, Template = [], Merge = [], Default = [(''max_tokens'', VInt 1000)],
           Delete = [], Stop = False\<rparr>] [None :: demo_tmpl option]
       = Inl NilMapAssignment"
    by code_simp
  show "processActions demo_lib None [] []
         [\<lparr>When = None, Template = ''{\"original\":true}'', Merge = [], Default = [],
           Delete = [], Stop = False\<rparr>] [Some (Literal ''{\"original\":true}'')]
       = Inl NilMapAssignment"
    by code_simp
qed


end
